theory Spec2Isabelle
  imports Complex_Main "HOL-Library.AList"
begin

section \<open>JavaScript numbers\<close>

text \<open>
  A JavaScript number is an IEEE double.  The model keeps the four kinds of value that
  the program tells apart (\<^verbatim>\<open>Number.isFinite\<close>, comparisons, \<^verbatim>\<open>Math.min\<close>/\<^verbatim>\<open>Math.max\<close>)
  and idealises the finite ones as real numbers: \<open>Fin x\<close> is the finite number \<open>x\<close>,
  computed without rounding and without overflow; \<open>NaN\<close>, \<open>PInf\<close> and \<open>NInf\<close> are
  \<^verbatim>\<open>NaN\<close>, \<^verbatim>\<open>Infinity\<close> and \<^verbatim>\<open>-Infinity\<close>.  The sign of zero is not modelled.
\<close>

datatype jsnum = Fin real | NaN | PInf | NInf

fun is_fin :: "jsnum \<Rightarrow> bool" where
  "is_fin (Fin x) = True"
| "is_fin _ = False"

text \<open>\<^verbatim>\<open>Number.isFinite(v)\<close>, where \<open>None\<close> is \<^verbatim>\<open>undefined\<close>.\<close>

fun Number_isFinite :: "jsnum option \<Rightarrow> bool" where
  "Number_isFinite None = False"
| "Number_isFinite (Some n) = is_fin n"

fun js_add :: "jsnum \<Rightarrow> jsnum \<Rightarrow> jsnum" where
  "js_add (Fin a) (Fin b) = Fin (a + b)"
| "js_add NaN _ = NaN"
| "js_add _ NaN = NaN"
| "js_add PInf NInf = NaN"
| "js_add NInf PInf = NaN"
| "js_add PInf _ = PInf"
| "js_add _ PInf = PInf"
| "js_add NInf _ = NInf"
| "js_add _ NInf = NInf"

fun js_mul :: "jsnum \<Rightarrow> jsnum \<Rightarrow> jsnum" where
  "js_mul (Fin a) (Fin b) = Fin (a * b)"
| "js_mul NaN _ = NaN"
| "js_mul _ NaN = NaN"
| "js_mul PInf (Fin b) = (if b = 0 then NaN else if 0 < b then PInf else NInf)"
| "js_mul NInf (Fin b) = (if b = 0 then NaN else if 0 < b then NInf else PInf)"
| "js_mul (Fin a) PInf = (if a = 0 then NaN else if 0 < a then PInf else NInf)"
| "js_mul (Fin a) NInf = (if a = 0 then NaN else if 0 < a then NInf else PInf)"
| "js_mul PInf PInf = PInf"
| "js_mul NInf NInf = PInf"
| "js_mul PInf NInf = NInf"
| "js_mul NInf PInf = NInf"

fun js_div :: "jsnum \<Rightarrow> jsnum \<Rightarrow> jsnum" where
  "js_div (Fin a) (Fin b) =
     (if b \<noteq> 0 then Fin (a / b)
      else if a = 0 then NaN else if 0 < a then PInf else NInf)"
| "js_div NaN _ = NaN"
| "js_div _ NaN = NaN"
| "js_div (Fin a) PInf = Fin 0"
| "js_div (Fin a) NInf = Fin 0"
| "js_div PInf (Fin b) = (if 0 \<le> b then PInf else NInf)"
| "js_div NInf (Fin b) = (if 0 \<le> b then NInf else PInf)"
| "js_div PInf PInf = NaN"
| "js_div PInf NInf = NaN"
| "js_div NInf PInf = NaN"
| "js_div NInf NInf = NaN"

text \<open>\<^verbatim>\<open>a > b\<close> and \<^verbatim>\<open>a <= b\<close>: every comparison with \<^verbatim>\<open>NaN\<close> is false.\<close>

fun js_gt :: "jsnum \<Rightarrow> jsnum \<Rightarrow> bool" where
  "js_gt (Fin a) (Fin b) = (b < a)"
| "js_gt NaN _ = False"
| "js_gt _ NaN = False"
| "js_gt PInf PInf = False"
| "js_gt PInf _ = True"
| "js_gt _ PInf = False"
| "js_gt NInf _ = False"
| "js_gt _ NInf = True"

fun js_le :: "jsnum \<Rightarrow> jsnum \<Rightarrow> bool" where
  "js_le NaN _ = False"
| "js_le _ NaN = False"
| "js_le a b = (\<not> js_gt a b)"

fun Math_min :: "jsnum \<Rightarrow> jsnum \<Rightarrow> jsnum" where
  "Math_min NaN _ = NaN"
| "Math_min _ NaN = NaN"
| "Math_min a b = (if js_gt a b then b else a)"

fun Math_max :: "jsnum \<Rightarrow> jsnum \<Rightarrow> jsnum" where
  "Math_max NaN _ = NaN"
| "Math_max _ NaN = NaN"
| "Math_max a b = (if js_gt b a then b else a)"

text \<open>
  \<^verbatim>\<open>Math.pow(x, y)\<close> for an exponent \<open>y\<close> that is a positive, non-integer literal, which
  is what every call of the program passes (0.7, 0.9, 0.6, 0.35, 0.25): a negative base
  gives \<^verbatim>\<open>NaN\<close>, both infinities give \<^verbatim>\<open>Infinity\<close>.
\<close>

fun Math_pow :: "jsnum \<Rightarrow> real \<Rightarrow> jsnum" where
  "Math_pow (Fin x) y = (if 0 < x then Fin (x powr y) else if x = 0 then Fin 0 else NaN)"
| "Math_pow NaN y = NaN"
| "Math_pow PInf y = PInf"
| "Math_pow NInf y = PInf"

text \<open>\<^verbatim>\<open>clamp(x, lo, hi) = Math.max(lo, Math.min(hi, x))\<close>.\<close>

definition clamp :: "jsnum \<Rightarrow> jsnum \<Rightarrow> jsnum \<Rightarrow> jsnum" where
  "clamp x lo hi = Math_max lo (Math_min hi x)"

section \<open>The CSV line splitter\<close>

abbreviation dquote :: char where
  "dquote \<equiv> CHR 0x22"

abbreviation comma :: char where
  "comma \<equiv> CHR '',''"

text \<open>
  The loop of \<^verbatim>\<open>splitCsvLine\<close> over the characters that are left, with its three
  variables \<open>out\<close>, \<open>cur\<close> and \<open>inQ\<close>.  The first equation is the look-ahead
  \<^verbatim>\<open>inQ && line[i + 1] === '"'\<close>, which consumes two characters (\<^verbatim>\<open>i++\<close>).
\<close>

fun splitCsvLine_loop :: "string \<Rightarrow> string list \<Rightarrow> string \<Rightarrow> bool \<Rightarrow> string list" where
  "splitCsvLine_loop [] out cur inQ = out @ [cur]"
| "splitCsvLine_loop [ch] out cur inQ =
     (if ch = dquote then splitCsvLine_loop [] out cur (\<not> inQ)
      else if ch = comma \<and> \<not> inQ then splitCsvLine_loop [] (out @ [cur]) [] inQ
      else splitCsvLine_loop [] out (cur @ [ch]) inQ)"
| "splitCsvLine_loop (ch # nxt # rest) out cur inQ =
     (if ch = dquote then
        (if inQ \<and> nxt = dquote then splitCsvLine_loop rest out (cur @ [dquote]) inQ
         else splitCsvLine_loop (nxt # rest) out cur (\<not> inQ))
      else if ch = comma \<and> \<not> inQ then splitCsvLine_loop (nxt # rest) (out @ [cur]) [] inQ
      else splitCsvLine_loop (nxt # rest) out (cur @ [ch]) inQ)"

definition splitCsvLine :: "string \<Rightarrow> string list" where
  "splitCsvLine line = splitCsvLine_loop line [] [] False"

section \<open>The median\<close>

text \<open>
  \<^verbatim>\<open>median(arr)\<close>: the finite elements, sorted by the numeric comparator; \<open>None\<close> is
  \<^verbatim>\<open>null\<close>.  After the filter every element is finite, so the sorted array is a list of
  reals, and both indices read are in range.
\<close>

fun finite_values :: "jsnum list \<Rightarrow> real list" where
  "finite_values [] = []"
| "finite_values (Fin x # xs) = x # finite_values xs"
| "finite_values (_ # xs) = finite_values xs"

definition median :: "jsnum list \<Rightarrow> jsnum option" where
  "median arr =
     (let a = sort (finite_values arr) in
      if length a = 0 then None
      else (let mid = length a div 2 in
            if length a mod 2 \<noteq> 0 then Some (Fin (a ! mid))
            else Some (js_div (js_add (Fin (a ! (mid - 1))) (Fin (a ! mid))) (Fin 2))))"

section \<open>Indicator feeds and the latest observation per country\<close>

text \<open>
  One observation of a feed, \<^verbatim>\<open>WorldBankDatum\<close>: every field is optional.
  \<open>wb_value\<close> is the field \<^verbatim>\<open>value?: number | null\<close>: \<open>None\<close> stands for both
  \<^verbatim>\<open>null\<close> and a missing field (the program tests \<^verbatim>\<open>val == null\<close>, which does not tell them
  apart), and \<open>Some n\<close> for a value that is present, \<open>n\<close> being the number
  \<^verbatim>\<open>Number(val)\<close> that the program stores: the value itself when it is a number, and
  \<^verbatim>\<open>NaN\<close> when it is not numeric.  \<open>wb_date\<close> is the field \<^verbatim>\<open>date?: string | number\<close>.
  A \<^verbatim>\<open>null\<close> row behaves as the row with no field.
\<close>

datatype wbdate = DateMissing | DateNum jsnum | DateStr string

record WorldBankDatum =
  countryiso3code :: "string option"
  wb_value :: "jsnum option"
  wb_date :: wbdate

text \<open>
  \<^verbatim>\<open>Number(it?.date)\<close>.  The reading of a string as a number is the language's own; it
  is the parameter \<open>N\<close> of the model.  \<^verbatim>\<open>Number(undefined)\<close> is \<^verbatim>\<open>NaN\<close>.
\<close>

fun Number_date :: "(string \<Rightarrow> jsnum) \<Rightarrow> wbdate \<Rightarrow> jsnum" where
  "Number_date N DateMissing = NaN"
| "Number_date N (DateNum n) = n"
| "Number_date N (DateStr s) = N s"

text \<open>The stored pair \<^verbatim>\<open>{ year, value }\<close>.\<close>

record obs =
  year :: jsnum
  obs_value :: jsnum

text \<open>
  A \<^verbatim>\<open>Map\<close> is an association list in insertion order: \<^verbatim>\<open>get\<close> is \<^const>\<open>map_of\<close>,
  \<^verbatim>\<open>set\<close> is \<^const>\<open>AList.update\<close> (a present key keeps its place, a new key goes last).
  One round of the loop of \<^verbatim>\<open>latestByIso3\<close>.
\<close>

definition latest_step :: "(string \<Rightarrow> jsnum) \<Rightarrow> WorldBankDatum \<Rightarrow> (string \<times> obs) list \<Rightarrow> (string \<times> obs) list" where
  "latest_step N it best =
     (let yr = Number_date N (wb_date it) in
      case (countryiso3code it, wb_value it) of
        (Some k, Some v) \<Rightarrow>
          if k = [] \<or> \<not> is_fin yr then best
          else (case map_of best k of
                  None \<Rightarrow> AList.update k \<lparr>year = yr, obs_value = v\<rparr> best
                | Some prev \<Rightarrow>
                    if js_gt yr (year prev) then AList.update k \<lparr>year = yr, obs_value = v\<rparr> best
                    else best)
      | _ \<Rightarrow> best)"

fun latest_loop :: "(string \<Rightarrow> jsnum) \<Rightarrow> WorldBankDatum list \<Rightarrow> (string \<times> obs) list \<Rightarrow> (string \<times> obs) list" where
  "latest_loop N [] best = best"
| "latest_loop N (it # rows) best = latest_loop N rows (latest_step N it best)"

text \<open>
  The response \<open>wbJson\<close> is \<open>Some rows\<close> when it is an array of more than one element,
  \<open>rows\<close> being its second element, and \<open>None\<close> otherwise.
\<close>

definition latestByIso3 :: "(string \<Rightarrow> jsnum) \<Rightarrow> WorldBankDatum list option \<Rightarrow> (string \<times> obs) list" where
  "latestByIso3 N wbJson = latest_loop N (case wbJson of None \<Rightarrow> [] | Some rows \<Rightarrow> rows) []"

text \<open>\<^verbatim>\<open>m.get(k)?.value\<close>.\<close>

definition get_value :: "(string \<times> obs) list \<Rightarrow> string \<Rightarrow> jsnum option" where
  "get_value m k = map_option obs_value (map_of m k)"

section \<open>Countries and segments\<close>

datatype segment = AMERICAS | EMEA | APAC

record country =
  iso3 :: string
  alpha2 :: "string option"
  name :: string
  region :: "string option"
  subRegion :: "string option"
  seg :: "segment option"

definition segmentOfCountry :: "string option \<Rightarrow> string option \<Rightarrow> segment option" where
  "segmentOfCountry reg sub =
     (if reg = Some ''Americas'' then Some AMERICAS
      else if reg = Some ''Europe'' then Some EMEA
      else if reg = Some ''Africa'' then Some EMEA
      else if reg = Some ''Asia'' then
        (if sub = Some ''Western Asia'' then Some EMEA else Some APAC)
      else if reg = Some ''Oceania'' then Some APAC
      else None)"

text \<open>\<^verbatim>\<open>s.split("\n")\<close>, \<^verbatim>\<open>header.indexOf(name)\<close> (\<open>None\<close> is \<open>-1\<close>) and \<^verbatim>\<open>cols[i]\<close>.\<close>

fun split_lines :: "string \<Rightarrow> string list" where
  "split_lines [] = [[]]"
| "split_lines (ch # rest) =
     (if ch = CHR 0x0A then [] # split_lines rest
      else (case split_lines rest of [] \<Rightarrow> [[ch]] | l # ls \<Rightarrow> (ch # l) # ls))"

fun indexOf :: "string list \<Rightarrow> string \<Rightarrow> nat option" where
  "indexOf [] x = None"
| "indexOf (h # hs) x = (if h = x then Some 0 else map_option Suc (indexOf hs x))"

definition col :: "string list \<Rightarrow> nat option \<Rightarrow> string option" where
  "col cols i = (case i of None \<Rightarrow> None | Some n \<Rightarrow> if n < length cols then Some (cols ! n) else None)"

text \<open>
  The taxonomy loop.  \<^verbatim>\<open>trim\<close> and \<^verbatim>\<open>toUpperCase\<close> are the language's own; they are the
  parameters \<open>trim\<close> and \<open>upper\<close>.  A row is kept when its code and its name are both
  present and non-empty.
\<close>

definition parse_row :: "(string \<Rightarrow> string) \<Rightarrow> (string \<Rightarrow> string) \<Rightarrow> string list \<Rightarrow> string \<Rightarrow> country option" where
  "parse_row trim upper header line =
     (let cols = splitCsvLine line;
          idx = indexOf header;
          iso3' = map_option (upper \<circ> trim) (col cols (idx ''alpha-3''));
          alpha2' = (case map_option (upper \<circ> trim) (col cols (idx ''alpha-2'')) of
                       None \<Rightarrow> None | Some a \<Rightarrow> if a = [] then None else Some a);
          name' = map_option trim (col cols (idx ''name''));
          region' = map_option trim (col cols (idx ''region''));
          subRegion' = map_option trim (col cols (idx ''sub-region''))
      in case (iso3', name') of
           (Some i, Some n) \<Rightarrow>
             if i = [] \<or> n = [] then None
             else Some \<lparr>iso3 = i, alpha2 = alpha2', name = n, region = region',
                        subRegion = subRegion', seg = segmentOfCountry region' subRegion'\<rparr>
         | _ \<Rightarrow> None)"

definition parse_countries :: "(string \<Rightarrow> string) \<Rightarrow> (string \<Rightarrow> string) \<Rightarrow> string \<Rightarrow> country list" where
  "parse_countries trim upper isoCsv =
     (case split_lines (trim isoCsv) of
        [] \<Rightarrow> []
      | l0 # ls \<Rightarrow> List.map_filter (parse_row trim upper (splitCsvLine l0)) ls)"

section \<open>The static tables\<close>

definition SEGMENT_REVENUE_USD_M :: "segment \<Rightarrow> real" where
  "SEGMENT_REVENUE_USD_M s =
     (case s of AMERICAS \<Rightarrow> 1506108 / 1000 | EMEA \<Rightarrow> 580284 / 1000 | APAC \<Rightarrow> 235356 / 1000)"

definition HUB_MULT :: "(string \<times> real) list" where
  "HUB_MULT =
     [(''USA'', 1.3), (''GBR'', 1.3), (''CHE'', 1.3), (''LUX'', 1.3), (''SGP'', 1.3),
      (''HKG'', 1.3), (''ARE'', 1.25), (''IRL'', 1.2), (''NLD'', 1.2), (''FRA'', 1.15),
      (''DEU'', 1.15), (''JPN'', 1.15), (''AUS'', 1.15), (''CAN'', 1.15)]"

definition OFFICE_COUNTRIES :: "string list" where
  "OFFICE_COUNTRIES =
     [''USA'', ''BRA'', ''CAN'',
      ''BGR'', ''GBR'', ''FRA'', ''DEU'', ''ITA'', ''LVA'', ''LUX'', ''NLD'', ''SWE'', ''ARE'',
      ''AUS'', ''CHN'', ''HKG'', ''IND'', ''JPN'', ''PHL'', ''SGP'']"

definition OFFICE_MULT :: real where
  "OFFICE_MULT = 1.15"

definition NEAR_ZERO :: "string list" where
  "NEAR_ZERO = [''CUB'', ''IRN'', ''PRK'', ''RUS'']"

definition NEAR_ZERO_MULT :: real where
  "NEAR_ZERO_MULT = 0.01"

text \<open>The segments in the order of \<^verbatim>\<open>Object.keys\<close> of the two tables keyed by segment.\<close>

definition segment_keys :: "segment list" where
  "segment_keys = [AMERICAS, EMEA, APAC]"

definition segment_name :: "segment \<Rightarrow> string" where
  "segment_name s = (case s of AMERICAS \<Rightarrow> ''AMERICAS'' | EMEA \<Rightarrow> ''EMEA'' | APAC \<Rightarrow> ''APAC'')"

section \<open>Medians per segment\<close>

text \<open>The six reduced feeds, in the program's local names.\<close>

record feeds =
  gdp :: "(string \<times> obs) list"
  mcapPct :: "(string \<times> obs) list"
  creditPct :: "(string \<times> obs) list"
  gdpPc :: "(string \<times> obs) list"
  netPct :: "(string \<times> obs) list"
  pop :: "(string \<times> obs) list"

text \<open>The shape \<^verbatim>\<open>{ mcap, credit, gdppc, net }\<close> of \<^verbatim>\<open>segVals\<close> and \<^verbatim>\<open>segMedian\<close>.\<close>

record 'a per_indicator =
  mcap :: 'a
  credit :: 'a
  gdppc :: 'a
  net :: 'a

text \<open>\<^verbatim>\<open>if (Number.isFinite(v)) arr.push(v)\<close>.\<close>

definition push_finite :: "jsnum option \<Rightarrow> jsnum list \<Rightarrow> jsnum list" where
  "push_finite v arr = (if Number_isFinite v then arr @ [the v] else arr)"

fun segVals_loop :: "feeds \<Rightarrow> country list \<Rightarrow> (segment \<Rightarrow> jsnum list per_indicator) \<Rightarrow> (segment \<Rightarrow> jsnum list per_indicator)" where
  "segVals_loop f [] segVals = segVals"
| "segVals_loop f (c # cs) segVals =
     (case seg c of
        None \<Rightarrow> segVals_loop f cs segVals
      | Some s \<Rightarrow>
          segVals_loop f cs
            (segVals(s :=
               \<lparr>mcap = push_finite (get_value (mcapPct f) (iso3 c)) (mcap (segVals s)),
                credit = push_finite (get_value (creditPct f) (iso3 c)) (credit (segVals s)),
                gdppc = push_finite (get_value (gdpPc f) (iso3 c)) (gdppc (segVals s)),
                net = push_finite (get_value (netPct f) (iso3 c)) (net (segVals s))\<rparr>)))"

definition segVals_of :: "feeds \<Rightarrow> country list \<Rightarrow> segment \<Rightarrow> jsnum list per_indicator" where
  "segVals_of f countries =
     segVals_loop f countries (\<lambda>s. \<lparr>mcap = [], credit = [], gdppc = [], net = []\<rparr>)"

text \<open>\<^verbatim>\<open>median(arr) ?? d\<close>.\<close>

definition median_or :: "jsnum list \<Rightarrow> real \<Rightarrow> jsnum" where
  "median_or arr d = (case median arr of None \<Rightarrow> Fin d | Some m \<Rightarrow> m)"

definition segMedian_of :: "feeds \<Rightarrow> country list \<Rightarrow> segment \<Rightarrow> jsnum per_indicator" where
  "segMedian_of f countries s =
     \<lparr>mcap = median_or (mcap (segVals_of f countries s)) 30,
      credit = median_or (credit (segVals_of f countries s)) 50,
      gdppc = median_or (gdppc (segVals_of f countries s)) 8000,
      net = median_or (net (segVals_of f countries s)) 55\<rparr>"

section \<open>Scores\<close>

text \<open>\<^verbatim>\<open>m.get(k)?.value ?? d\<close>: the fallback is taken only when no value is stored.\<close>

definition value_or :: "(string \<times> obs) list \<Rightarrow> string \<Rightarrow> jsnum \<Rightarrow> jsnum" where
  "value_or m k d = (case get_value m k of None \<Rightarrow> d | Some v \<Rightarrow> v)"

text \<open>
  The body of the scoring loop for a country \<open>c\<close> of segment \<open>s\<close>: the score that is
  stored under \<open>iso3 c\<close> in the map of \<open>s\<close>.
\<close>

definition score_of :: "feeds \<Rightarrow> (segment \<Rightarrow> jsnum per_indicator) \<Rightarrow> segment \<Rightarrow> country \<Rightarrow> jsnum" where
  "score_of f segMedian s c =
     (let g = get_value (gdp f) (iso3 c) in
      if \<not> Number_isFinite g \<or> js_le (the g) (Fin 0) then Fin (1 / 10 ^ 9)
      else
        (let mp = value_or (mcapPct f) (iso3 c) (mcap (segMedian s));
             cp = value_or (creditPct f) (iso3 c) (credit (segMedian s));
             gp = value_or (gdpPc f) (iso3 c) (gdppc (segMedian s));
             np = value_or (netPct f) (iso3 c) (net (segMedian s));
             mcapFactor = Math_pow (js_add (Fin 1) (js_div (clamp mp (Fin 0) (Fin 400)) (Fin 100))) 0.9;
             creditFactor = Math_pow (js_add (Fin 1) (js_div (clamp cp (Fin 0) (Fin 300)) (Fin 100))) 0.6;
             wealthFactor = Math_pow (js_add (Fin 1) (js_div (clamp gp (Fin 0) (Fin 80000)) (Fin 50000))) 0.35;
             internetFactor = Math_pow (js_add (Fin 0.2) (js_div (clamp np (Fin 0) (Fin 100)) (Fin 100))) 0.25;
             s0 = js_mul (js_mul (js_mul (js_mul (Math_pow (the g) 0.7) mcapFactor) creditFactor)
                    wealthFactor) internetFactor;
             s1 = js_mul s0 (case map_of HUB_MULT (iso3 c) of None \<Rightarrow> Fin 1.0 | Some m \<Rightarrow> Fin m);
             s2 = (if iso3 c \<in> set OFFICE_COUNTRIES then js_mul s1 (Fin OFFICE_MULT) else s1);
             s3 = (if iso3 c \<in> set NEAR_ZERO then js_mul s2 (Fin NEAR_ZERO_MULT) else s2)
         in s3))"

fun scores_loop :: "feeds \<Rightarrow> (segment \<Rightarrow> jsnum per_indicator) \<Rightarrow> country list \<Rightarrow> (segment \<Rightarrow> (string \<times> jsnum) list) \<Rightarrow> (segment \<Rightarrow> (string \<times> jsnum) list)" where
  "scores_loop f segMedian [] scores = scores"
| "scores_loop f segMedian (c # cs) scores =
     (case seg c of
        None \<Rightarrow> scores_loop f segMedian cs scores
      | Some s \<Rightarrow>
          scores_loop f segMedian cs
            (scores(s := AList.update (iso3 c) (score_of f segMedian s c) (scores s))))"

definition scores_of :: "feeds \<Rightarrow> country list \<Rightarrow> segment \<Rightarrow> (string \<times> jsnum) list" where
  "scores_of f countries = scores_loop f (segMedian_of f countries) countries (\<lambda>s. [])"

section \<open>Allocation\<close>

text \<open>A row of \<^verbatim>\<open>allocations\<close>; the field names carry the prefix \<open>row_\<close>.\<close>

record allocation =
  row_iso3 :: string
  row_country :: string
  row_segment :: string
  row_revenueMillions :: jsnum
  row_office :: bool
  row_hub :: bool
  row_nearZero :: bool

text \<open>\<^verbatim>\<open>let sum = 0; for (const v of map.values()) sum += v\<close>, the variable \<^verbatim>\<open>sum\<close> being \<open>sm\<close>.\<close>

fun sum_values :: "jsnum list \<Rightarrow> jsnum \<Rightarrow> jsnum" where
  "sum_values [] sm = sm"
| "sum_values (v # vs) sm = sum_values vs (js_add sm v)"

definition allocation_row :: "(string \<times> jsnum) list \<Rightarrow> jsnum \<Rightarrow> segment \<Rightarrow> country \<Rightarrow> allocation" where
  "allocation_row m sm sg c =
     (let s = (case map_of m (iso3 c) of None \<Rightarrow> Fin 0 | Some v \<Rightarrow> v);
          share = (if js_gt sm (Fin 0) then js_div s sm else Fin 0)
      in \<lparr>row_iso3 = iso3 c, row_country = name c, row_segment = segment_name sg,
          row_revenueMillions = js_mul (Fin (SEGMENT_REVENUE_USD_M sg)) share,
          row_office = (iso3 c \<in> set OFFICE_COUNTRIES),
          row_hub = (map_of HUB_MULT (iso3 c) \<noteq> None),
          row_nearZero = (iso3 c \<in> set NEAR_ZERO)\<rparr>)"

text \<open>The rows pushed for one segment, and all rows, segment after segment.\<close>

definition segment_rows :: "(segment \<Rightarrow> (string \<times> jsnum) list) \<Rightarrow> country list \<Rightarrow> segment \<Rightarrow> allocation list" where
  "segment_rows scores countries sg =
     map (allocation_row (scores sg) (sum_values (map snd (scores sg)) (Fin 0)) sg)
       (filter (\<lambda>x. seg x = Some sg) countries)"

definition allocations_of :: "(segment \<Rightarrow> (string \<times> jsnum) list) \<Rightarrow> country list \<Rightarrow> allocation list" where
  "allocations_of scores countries = concat (map (segment_rows scores countries) segment_keys)"

text \<open>\<^verbatim>\<open>allocations.reduce((a, b) => a + b.revenueMillions, 0)\<close>.\<close>

definition total_revenue :: "allocation list \<Rightarrow> jsnum" where
  "total_revenue allocations = sum_values (map row_revenueMillions allocations) (Fin 0)"

text \<open>\<^verbatim>\<open>total > 0 ? revenueMillions / total : 0\<close>.\<close>

definition share_of :: "jsnum \<Rightarrow> jsnum \<Rightarrow> jsnum" where
  "share_of totalRev revenue = (if js_gt totalRev (Fin 0) then js_div revenue totalRev else Fin 0)"

fun maxShare_loop :: "jsnum \<Rightarrow> allocation list \<Rightarrow> jsnum \<Rightarrow> jsnum" where
  "maxShare_loop totalRev [] maxShare = maxShare"
| "maxShare_loop totalRev (row # rows) maxShare =
     maxShare_loop totalRev rows
       (if js_gt (share_of totalRev (row_revenueMillions row)) maxShare
        then share_of totalRev (row_revenueMillions row) else maxShare)"

section \<open>The output table\<close>

text \<open>
  An entry of \<^verbatim>\<open>countryDetails\<close>; the field names carry the prefix \<open>d_\<close>.  The flag
  address, a string built from the two-letter code, is left out, and so is the table
  \<^verbatim>\<open>iso3ToIntensity\<close>, which repeats the shares.
\<close>

record detail =
  d_iso3 :: string
  d_name :: string
  d_region :: string
  d_revenueMillions :: jsnum
  d_share :: jsnum
  d_population :: "jsnum option"
  d_segment :: string
  d_office :: bool
  d_hub :: bool
  d_nearZero :: bool

text \<open>
  \<^verbatim>\<open>countryDetailsMap\<close> is a plain object; its own properties are an association list
  in insertion order.  Every key is an upper-cased code, so none is a property that a
  plain object inherits.  \<^verbatim>\<open>countryMap\<close> is built from the pairs \<^verbatim>\<open>[c.iso3, c]\<close>, a later
  pair replacing an earlier one with the same code.
\<close>

fun countryMap_of :: "country list \<Rightarrow> (string \<times> country) list \<Rightarrow> (string \<times> country) list" where
  "countryMap_of [] m = m"
| "countryMap_of (c # cs) m = countryMap_of cs (AList.update (iso3 c) c m)"

definition detail_of_row :: "feeds \<Rightarrow> (string \<times> country) list \<Rightarrow> jsnum \<Rightarrow> allocation \<Rightarrow> detail" where
  "detail_of_row f countryMap totalRev row =
     \<lparr>d_iso3 = row_iso3 row, d_name = row_country row,
      d_region = (case map_of countryMap (row_iso3 row) of
                    None \<Rightarrow> [] | Some meta \<Rightarrow> (case region meta of None \<Rightarrow> [] | Some r \<Rightarrow> r)),
      d_revenueMillions = row_revenueMillions row,
      d_share = share_of totalRev (row_revenueMillions row),
      d_population = get_value (pop f) (row_iso3 row),
      d_segment = row_segment row,
      d_office = row_office row, d_hub = row_hub row, d_nearZero = row_nearZero row\<rparr>"

fun details_pass1 :: "feeds \<Rightarrow> (string \<times> country) list \<Rightarrow> jsnum \<Rightarrow> allocation list \<Rightarrow> (string \<times> detail) list \<Rightarrow> (string \<times> detail) list" where
  "details_pass1 f countryMap totalRev [] m = m"
| "details_pass1 f countryMap totalRev (row # rows) m =
     details_pass1 f countryMap totalRev rows
       (AList.update (row_iso3 row) (detail_of_row f countryMap totalRev row) m)"

definition zero_detail :: "feeds \<Rightarrow> country \<Rightarrow> detail" where
  "zero_detail f c =
     \<lparr>d_iso3 = iso3 c, d_name = name c,
      d_region = (case region c of None \<Rightarrow> [] | Some r \<Rightarrow> r),
      d_revenueMillions = Fin 0, d_share = Fin 0,
      d_population = get_value (pop f) (iso3 c),
      d_segment = (case seg c of None \<Rightarrow> [] | Some s \<Rightarrow> segment_name s),
      d_office = (iso3 c \<in> set OFFICE_COUNTRIES),
      d_hub = (map_of HUB_MULT (iso3 c) \<noteq> None),
      d_nearZero = (iso3 c \<in> set NEAR_ZERO)\<rparr>"

fun details_pass2 :: "feeds \<Rightarrow> country list \<Rightarrow> (string \<times> detail) list \<Rightarrow> (string \<times> detail) list" where
  "details_pass2 f [] m = m"
| "details_pass2 f (c # cs) m =
     (if map_of m (iso3 c) \<noteq> None then details_pass2 f cs m
      else details_pass2 f cs (AList.update (iso3 c) (zero_detail f c) m))"

section \<open>The whole computation\<close>

record payload =
  countryDetails :: "detail list"
  totalRevenueMillions :: jsnum
  maxShare :: jsnum

text \<open>
  \<^verbatim>\<open>buildExposureData\<close> from the country list on.  The six responses are its inputs; a
  failed request throws before anything is computed and has no value here.
  \<^verbatim>\<open>Object.values\<close> lists the entries in insertion order (a code that reads as an array
  index would come first; nothing proved below depends on the order).
\<close>

definition reduce_feeds :: "(string \<Rightarrow> jsnum) \<Rightarrow> WorldBankDatum list option \<Rightarrow> WorldBankDatum list option \<Rightarrow> WorldBankDatum list option \<Rightarrow> WorldBankDatum list option \<Rightarrow> WorldBankDatum list option \<Rightarrow> WorldBankDatum list option \<Rightarrow> feeds" where
  "reduce_feeds N gdpJson mcapJson creditJson gdpPcJson netJson popJson =
     \<lparr>gdp = latestByIso3 N gdpJson, mcapPct = latestByIso3 N mcapJson,
      creditPct = latestByIso3 N creditJson, gdpPc = latestByIso3 N gdpPcJson,
      netPct = latestByIso3 N netJson, pop = latestByIso3 N popJson\<rparr>"

definition exposure :: "feeds \<Rightarrow> country list \<Rightarrow> payload" where
  "exposure f countries =
     (let allocations = allocations_of (scores_of f countries) countries;
          totalRev = total_revenue allocations
      in \<lparr>countryDetails =
            map snd (details_pass2 f countries
                       (details_pass1 f (countryMap_of countries []) totalRev allocations [])),
          totalRevenueMillions = totalRev,
          maxShare = maxShare_loop totalRev allocations (Fin 0)\<rparr>)"

definition buildExposureData :: "(string \<Rightarrow> jsnum) \<Rightarrow> (string \<Rightarrow> string) \<Rightarrow> (string \<Rightarrow> string) \<Rightarrow> string \<Rightarrow> WorldBankDatum list option \<Rightarrow> WorldBankDatum list option \<Rightarrow> WorldBankDatum list option \<Rightarrow> WorldBankDatum list option \<Rightarrow> WorldBankDatum list option \<Rightarrow> WorldBankDatum list option \<Rightarrow> payload" where
  "buildExposureData N trim upper isoCsv gdpJson mcapJson creditJson gdpPcJson netJson popJson =
     exposure (reduce_feeds N gdpJson mcapJson creditJson gdpPcJson netJson popJson)
       (parse_countries trim upper isoCsv)"

section \<open>Reference notions of the specification\<close>

text \<open>
  Standard CSV quoting, as a writer: a quoted field is enclosed in double quotes with
  every double quote of its text doubled; a field may be written bare when its text has
  neither a comma nor a double quote; the fields of a line are joined by commas.  A pair
  \<open>(q, f)\<close> is the text \<open>f\<close> of a field and whether it is written quoted.
\<close>

definition csv_escape :: "string \<Rightarrow> string" where
  "csv_escape f = concat (map (\<lambda>ch. if ch = dquote then [dquote, dquote] else [ch]) f)"

definition csv_field :: "bool \<times> string \<Rightarrow> string" where
  "csv_field qf = (if fst qf then dquote # csv_escape (snd qf) @ [dquote] else snd qf)"

fun csv_line :: "string list \<Rightarrow> string" where
  "csv_line [] = []"
| "csv_line [x] = x"
| "csv_line (x # y # zs) = x @ comma # csv_line (y # zs)"

text \<open>
  The observations that the loop of \<^verbatim>\<open>latestByIso3\<close> does not skip, for the country
  \<open>k\<close>: the code is present, non-empty and equal to \<open>k\<close>, the year is a finite number,
  and the value is neither \<^verbatim>\<open>null\<close> nor missing.  \<open>year_of\<close> is the year the loop
  compares.
\<close>

definition qualifies :: "(string \<Rightarrow> jsnum) \<Rightarrow> string \<Rightarrow> WorldBankDatum \<Rightarrow> bool" where
  "qualifies N k it =
     (k \<noteq> [] \<and> countryiso3code it = Some k \<and> is_fin (Number_date N (wb_date it)) \<and> wb_value it \<noteq> None)"

definition year_of :: "(string \<Rightarrow> jsnum) \<Rightarrow> WorldBankDatum \<Rightarrow> jsnum" where
  "year_of N it = Number_date N (wb_date it)"

text \<open>
  \<open>r\<close>, between \<open>pre\<close> and \<open>post\<close>, is the first observation of the latest year: the
  year of \<open>r\<close> is greater than every year before it, and no year after it is greater.
\<close>

definition first_latest :: "(string \<Rightarrow> jsnum) \<Rightarrow> WorldBankDatum list \<Rightarrow> WorldBankDatum \<Rightarrow> WorldBankDatum list \<Rightarrow> bool" where
  "first_latest N pre r post =
     ((\<forall>p \<in> set pre. js_gt (year_of N r) (year_of N p)) \<and>
      (\<forall>p \<in> set post. \<not> js_gt (year_of N p) (year_of N r)))"

text \<open>
  The median in the words of the specification: of the sorted values, the middle one
  when their number is odd, the average of the two middle ones when it is even.
\<close>

definition spec_median :: "real list \<Rightarrow> real" where
  "spec_median vs =
     (let a = sort vs; n = length a in
      if odd n then a ! (n div 2) else (a ! (n div 2 - 1) + a ! (n div 2)) / 2)"

text \<open>
  The finite value observed for a country in a reduced feed, and the finite values
  observed for the countries of a segment, one for each country record that has one, in
  the order of the country list.
\<close>

definition finite_value :: "(string \<times> obs) list \<Rightarrow> string \<Rightarrow> real option" where
  "finite_value m k = (case get_value m k of Some (Fin x) \<Rightarrow> Some x | _ \<Rightarrow> None)"

definition segment_observations :: "(string \<times> obs) list \<Rightarrow> country list \<Rightarrow> segment \<Rightarrow> real list" where
  "segment_observations m countries s =
     List.map_filter (\<lambda>c. finite_value m (iso3 c)) (filter (\<lambda>c. seg c = Some s) countries)"

text \<open>
  The composite score in the words of the specification, on a positive GDP and the four
  clamped indicator values, and the product of the override multipliers of a country:
  the hub multiplier of the table (1.0 when the country is not in it), 1.15 for an
  office country, 0.01 for a near-zero country.
\<close>

definition composite_score :: "real \<Rightarrow> real \<Rightarrow> real \<Rightarrow> real \<Rightarrow> real \<Rightarrow> real" where
  "composite_score g m cr gp n =
     g powr 0.70 * (1 + m / 100) powr 0.90 * (1 + cr / 100) powr 0.60
       * (1 + gp / 50000) powr 0.35 * (0.2 + n / 100) powr 0.25"

definition hub_multiplier :: "string \<Rightarrow> real" where
  "hub_multiplier k = (case map_of HUB_MULT k of None \<Rightarrow> 1.0 | Some h \<Rightarrow> h)"

definition override_multiplier :: "string \<Rightarrow> real" where
  "override_multiplier k =
     hub_multiplier k * (if k \<in> set OFFICE_COUNTRIES then 1.15 else 1)
       * (if k \<in> set NEAR_ZERO then 0.01 else 1)"

text \<open>Every entry of the table of details is stored under its own code.\<close>

definition keyed :: "(string \<times> detail) list \<Rightarrow> bool" where
  "keyed m = (\<forall>kd \<in> set m. d_iso3 (snd kd) = fst kd)"

text \<open>
  No stored value of the four scoring indicators of a country is \<^verbatim>\<open>NaN\<close>; and the real
  number that a finite value stands for.
\<close>

definition no_NaN_indicator :: "feeds \<Rightarrow> country \<Rightarrow> bool" where
  "no_NaN_indicator f c =
     (get_value (mcapPct f) (iso3 c) \<noteq> Some NaN \<and> get_value (creditPct f) (iso3 c) \<noteq> Some NaN \<and>
      get_value (gdpPc f) (iso3 c) \<noteq> Some NaN \<and> get_value (netPct f) (iso3 c) \<noteq> Some NaN)"

definition fin_val :: "jsnum \<Rightarrow> real" where
  "fin_val x = (case x of Fin v \<Rightarrow> v | _ \<Rightarrow> 0)"

text \<open>The revenue of the allocation row that is pushed for a country \<open>c\<close> of segment \<open>s\<close>.\<close>

definition revenue_of :: "feeds \<Rightarrow> country list \<Rightarrow> segment \<Rightarrow> country \<Rightarrow> jsnum" where
  "revenue_of f cs s c =
     row_revenueMillions
       (allocation_row (scores_of f cs s) (sum_values (map snd (scores_of f cs s)) (Fin 0)) s c)"

text \<open>
  A number that is not \<^verbatim>\<open>NaN\<close>, clamped to the range from \<open>lo\<close> to \<open>hi\<close>, as a real:
  the infinities go to the bounds.
\<close>

abbreviation clamped :: "real \<Rightarrow> real \<Rightarrow> jsnum \<Rightarrow> real" where
  "clamped lo hi r \<equiv> (case r of Fin x \<Rightarrow> max lo (min hi x) | PInf \<Rightarrow> hi | NInf \<Rightarrow> lo | NaN \<Rightarrow> lo)"

section \<open>Properties of the CSV line splitter\<close>

lemma loop_other:
  "ch \<noteq> dquote \<Longrightarrow> splitCsvLine_loop (ch # r) out cur inQ =
     (if ch = comma \<and> \<not> inQ then splitCsvLine_loop r (out @ [cur]) [] inQ
      else splitCsvLine_loop r out (cur @ [ch]) inQ)"
  by (cases r) simp_all

lemma loop_quote:
  "splitCsvLine_loop (dquote # r) out cur inQ =
     (if inQ \<and> r \<noteq> [] \<and> hd r = dquote then splitCsvLine_loop (tl r) out (cur @ [dquote]) inQ
      else splitCsvLine_loop r out cur (\<not> inQ))"
  by (cases r) simp_all

lemma csv_escape_simps:
  "csv_escape [] = []"
  "csv_escape (dquote # f) = dquote # dquote # csv_escape f"
  "a \<noteq> dquote \<Longrightarrow> csv_escape (a # f) = a # csv_escape f"
  by (simp_all add: csv_escape_def)

text \<open>Outside quotes, a text without comma and quote is appended to the current field.\<close>

lemma loop_plain:
  "dquote \<notin> set f \<Longrightarrow> comma \<notin> set f \<Longrightarrow>
   splitCsvLine_loop (f @ r) out cur False = splitCsvLine_loop r out (cur @ f) False"
proof (induction f arbitrary: cur)
  case Nil
  then show ?case by simp
next
  case (Cons a f)
  then have a: "a \<noteq> dquote" "a \<noteq> comma" by auto
  have "splitCsvLine_loop (a # (f @ r)) out cur False = splitCsvLine_loop (f @ r) out (cur @ [a]) False"
    using a loop_other[of a "f @ r" out cur False] by simp
  then show ?case using Cons.IH[of "cur @ [a]"] Cons.prems by simp
qed

text \<open>
  Inside quotes, the escaped text and the closing quote give back the text, commas and
  quotes included, and leave the quoted state.
\<close>

lemma loop_quoted:
  "r = [] \<or> hd r \<noteq> dquote \<Longrightarrow>
   splitCsvLine_loop (csv_escape f @ dquote # r) out cur True = splitCsvLine_loop r out (cur @ f) False"
proof (induction f arbitrary: cur)
  case Nil
  then show ?case using loop_quote[of r out cur True] by (auto simp: csv_escape_simps)
next
  case (Cons a f)
  show ?case
  proof (cases "a = dquote")
    case True
    have "splitCsvLine_loop (dquote # dquote # csv_escape f @ dquote # r) out cur True
        = splitCsvLine_loop (csv_escape f @ dquote # r) out (cur @ [dquote]) True"
      using loop_quote[of "dquote # csv_escape f @ dquote # r" out cur True] by simp
    also have "\<dots> = splitCsvLine_loop r out ((cur @ [dquote]) @ f) False"
      by (rule Cons.IH[OF Cons.prems])
    finally show ?thesis using True by (simp add: csv_escape_simps)
  next
    case False
    then have "splitCsvLine_loop (a # csv_escape f @ dquote # r) out cur True
        = splitCsvLine_loop (csv_escape f @ dquote # r) out (cur @ [a]) True"
      using loop_other[of a "csv_escape f @ dquote # r" out cur True] by simp
    also have "\<dots> = splitCsvLine_loop r out ((cur @ [a]) @ f) False"
      by (rule Cons.IH[OF Cons.prems])
    finally show ?thesis using False by (simp add: csv_escape_simps)
  qed
qed

lemma loop_field:
  assumes "fst qf \<or> (dquote \<notin> set (snd qf) \<and> comma \<notin> set (snd qf))" and "r = [] \<or> hd r \<noteq> dquote"
  shows "splitCsvLine_loop (csv_field qf @ r) out [] False = splitCsvLine_loop r out (snd qf) False"
proof (cases "fst qf")
  case True
  then show ?thesis using loop_quoted[OF assms(2), of "snd qf" out "[]"]
    by (simp add: csv_field_def loop_quote del: splitCsvLine_loop.simps)
next
  case False
  then show ?thesis using assms(1) loop_plain[of "snd qf" r out "[]"]
    by (simp add: csv_field_def)
qed

lemma loop_line:
  "fs \<noteq> [] \<Longrightarrow> \<forall>qf \<in> set fs. fst qf \<or> (dquote \<notin> set (snd qf) \<and> comma \<notin> set (snd qf)) \<Longrightarrow>
   splitCsvLine_loop (csv_line (map csv_field fs)) out [] False = out @ map snd fs"
proof (induction fs arbitrary: out)
  case Nil
  then show ?case by simp
next
  case (Cons x fs)
  show ?case
  proof (cases fs)
    case Nil
    then show ?thesis using Cons.prems loop_field[of x "[]" out]
      by simp
  next
    case (Cons y zs)
    have "splitCsvLine_loop (csv_field x @ comma # csv_line (map csv_field (y # zs))) out [] False
        = splitCsvLine_loop (comma # csv_line (map csv_field (y # zs))) out (snd x) False"
      using Cons.prems by (intro loop_field) auto
    also have "\<dots> = splitCsvLine_loop (csv_line (map csv_field (y # zs))) (out @ [snd x]) [] False"
      by (simp add: loop_other del: splitCsvLine_loop.simps)
    also have "\<dots> = (out @ [snd x]) @ map snd (y # zs)"
      using Cons.IH[of "out @ [snd x]"] Cons.prems Cons by simp
    finally show ?thesis using Cons by simp
  qed
qed

text \<open>
  C8.  The splitter reads standard CSV quoting: whenever a non-empty list of fields is
  written as a line, each field either quoted (with its double quotes doubled) or bare
  (allowed when it has no comma and no double quote), splitting the line gives back
  exactly the texts of the fields; so a comma inside a quoted field does not split and
  a doubled quote inside a quoted field is one quote character.  In particular the line
  \<^verbatim>\<open>USA,"Smith, John",1\<close> gives the three fields \<^verbatim>\<open>USA\<close>, \<^verbatim>\<open>Smith, John\<close> and \<^verbatim>\<open>1\<close>,
  and the field \<^verbatim>\<open>"He said ""hi"""\<close> gives \<^verbatim>\<open>He said "hi"\<close>.
\<close>

theorem splitCsvLine_standard_quoting:
  "(fs \<noteq> [] \<longrightarrow>
    (\<forall>qf \<in> set fs. fst qf \<or> (dquote \<notin> set (snd qf) \<and> comma \<notin> set (snd qf))) \<longrightarrow>
    splitCsvLine (csv_line (map csv_field fs)) = map snd fs)
   \<and> splitCsvLine (''USA,'' @ [dquote] @ ''Smith, John'' @ [dquote] @ '',1'')
       = [''USA'', ''Smith, John'', ''1'']
   \<and> splitCsvLine ([dquote] @ ''He said '' @ [dquote, dquote] @ ''hi'' @ [dquote, dquote, dquote])
       = [''He said '' @ [dquote] @ ''hi'' @ [dquote]]"
proof (intro conjI impI)
  assume "fs \<noteq> []"
    and "\<forall>qf \<in> set fs. fst qf \<or> (dquote \<notin> set (snd qf) \<and> comma \<notin> set (snd qf))"
  then show "splitCsvLine (csv_line (map csv_field fs)) = map snd fs"
    using loop_line[of fs "[]"] by (simp add: splitCsvLine_def)
next
  show "splitCsvLine (''USA,'' @ [dquote] @ ''Smith, John'' @ [dquote] @ '',1'')
       = [''USA'', ''Smith, John'', ''1'']"
    by (simp add: splitCsvLine_def)
next
  show "splitCsvLine ([dquote] @ ''He said '' @ [dquote, dquote] @ ''hi'' @ [dquote, dquote, dquote])
       = [''He said '' @ [dquote] @ ''hi'' @ [dquote]]"
    by (simp add: splitCsvLine_def)
qed

theorem splitCsvLine_standard_quoting_witness:
  "[(False, ''a''), (True, ''b,'' @ [dquote] @ ''c''), (True, [])] \<noteq> []
   \<and> dquote \<notin> set ''a'' \<and> comma \<notin> set ''a''
   \<and> csv_line (map csv_field [(False, ''a''), (True, ''b,'' @ [dquote] @ ''c''), (True, [])])
       = ''a,'' @ [dquote] @ ''b,'' @ [dquote, dquote] @ ''c'' @ [dquote] @ '','' @ [dquote, dquote]
   \<and> splitCsvLine (''a,'' @ [dquote] @ ''b,'' @ [dquote, dquote] @ ''c'' @ [dquote] @ '','' @ [dquote, dquote])
       = [''a'', ''b,'' @ [dquote] @ ''c'', []]"
  using splitCsvLine_standard_quoting
          [of "[(False, ''a''), (True, ''b,'' @ [dquote] @ ''c''), (True, [])]"]
  by (simp add: csv_field_def csv_escape_def)

section \<open>Properties of the latest-observation reduction\<close>

lemma latest_loop_append:
  "latest_loop N (xs @ ys) best = latest_loop N ys (latest_loop N xs best)"
  by (induction xs arbitrary: best) simp_all

lemma is_fin_conv: "is_fin x \<longleftrightarrow> (\<exists>a. x = Fin a)"
  by (cases x) simp_all

lemma latest_step_other:
  "\<not> qualifies N k it \<Longrightarrow> map_of (latest_step N it best) k = map_of best k"
  by (auto simp: latest_step_def qualifies_def Let_def update_conv split: option.splits)

lemma latest_step_qual:
  "qualifies N k it \<Longrightarrow> wb_value it = Some v \<Longrightarrow>
   map_of (latest_step N it best) k =
     (case map_of best k of
        None \<Rightarrow> Some \<lparr>year = year_of N it, obs_value = v\<rparr>
      | Some prev \<Rightarrow> if js_gt (year_of N it) (year prev)
                     then Some \<lparr>year = year_of N it, obs_value = v\<rparr> else Some prev)"
  by (auto simp: latest_step_def qualifies_def year_of_def Let_def update_conv split: option.splits)

lemma latest_loop_char:
  "(filter (qualifies N k) rows = [] \<and> map_of (latest_loop N rows []) k = None) \<or>
   (\<exists>pre r post v. filter (qualifies N k) rows = pre @ r # post \<and> wb_value r = Some v \<and>
      first_latest N pre r post \<and>
      map_of (latest_loop N rows []) k = Some \<lparr>year = year_of N r, obs_value = v\<rparr>)"
proof (induction rows rule: rev_induct)
  case Nil
  then show ?case by simp
next
  case (snoc it rows)
  let ?best = "latest_loop N rows []"
  let ?qs = "filter (qualifies N k) rows"
  have step: "latest_loop N (rows @ [it]) [] = latest_step N it ?best"
    by (simp add: latest_loop_append)
  show ?case
  proof (cases "qualifies N k it")
    case False
    then show ?thesis using snoc.IH step by (simp add: latest_step_other)
  next
    case True
    then obtain v where v: "wb_value it = Some v" by (auto simp: qualifies_def)
    obtain a where a: "year_of N it = Fin a"
      using True by (auto simp: qualifies_def year_of_def is_fin_conv)
    have fin: "\<And>p. p \<in> set ?qs \<Longrightarrow> \<exists>b. year_of N p = Fin b"
      by (auto simp: qualifies_def year_of_def is_fin_conv)
    from snoc.IH show ?thesis
    proof (elim disjE conjE exE)
      assume e: "?qs = []" and n: "map_of ?best k = None"
      have "filter (qualifies N k) (rows @ [it]) = [] @ it # []" using True e by simp
      moreover have "first_latest N [] it []" by (simp add: first_latest_def)
      moreover have "map_of (latest_loop N (rows @ [it]) []) k = Some \<lparr>year = year_of N it, obs_value = v\<rparr>"
        using step latest_step_qual[OF True v, of ?best] n by simp
      ultimately show ?thesis using v
        by (intro disjI2 exI[of _ "[]"] exI[of _ it] exI[of _ v]) simp
    next
      fix pre r post w
      assume d: "?qs = pre @ r # post" and w: "wb_value r = Some w"
        and fl: "first_latest N pre r post"
        and m: "map_of ?best k = Some \<lparr>year = year_of N r, obs_value = w\<rparr>"
      have rq: "r \<in> set ?qs" using d by simp
      then obtain b where b: "year_of N r = Fin b" using fin by blast
      have look: "map_of (latest_loop N (rows @ [it]) []) k =
          (if js_gt (year_of N it) (year_of N r) then Some \<lparr>year = year_of N it, obs_value = v\<rparr>
           else Some \<lparr>year = year_of N r, obs_value = w\<rparr>)"
        using step latest_step_qual[OF True v, of ?best] m by simp
      show ?thesis
      proof (cases "js_gt (year_of N it) (year_of N r)")
        case gt: True
        have "filter (qualifies N k) (rows @ [it]) = (pre @ r # post) @ it # []"
          using True d by simp
        moreover have "first_latest N (pre @ r # post) it []"
          unfolding first_latest_def
        proof (intro conjI ballI)
          fix p assume "p \<in> set (pre @ r # post)"
          then have pq: "p \<in> set ?qs" using d by simp
          then obtain c where c: "year_of N p = Fin c" using fin by blast
          from \<open>p \<in> set (pre @ r # post)\<close> show "js_gt (year_of N it) (year_of N p)"
            using fl gt a b c by (auto simp: first_latest_def)
        qed simp
        moreover have "map_of (latest_loop N (rows @ [it]) []) k = Some \<lparr>year = year_of N it, obs_value = v\<rparr>"
          using look gt by simp
        ultimately show ?thesis using v
          by (intro disjI2 exI[of _ "pre @ r # post"] exI[of _ it] exI[of _ "[]"] exI[of _ v]) simp
      next
        case ngt: False
        have "filter (qualifies N k) (rows @ [it]) = pre @ r # (post @ [it])"
          using True d by simp
        moreover have "first_latest N pre r (post @ [it])"
          using fl ngt by (auto simp: first_latest_def)
        moreover have "map_of (latest_loop N (rows @ [it]) []) k = Some \<lparr>year = year_of N r, obs_value = w\<rparr>"
          using look ngt by simp
        ultimately show ?thesis using w
          by (intro disjI2 exI[of _ pre] exI[of _ r] exI[of _ "post @ [it]"] exI[of _ w]) simp
      qed
    qed
  qed
qed

lemma first_latest_unique:
  assumes "pre @ r # post = pre' @ r' # post'"
    and "first_latest N pre r post" and "first_latest N pre' r' post'"
  shows "pre = pre' \<and> r = r' \<and> post = post'"
proof -
  have "length pre = length pre'"
  proof (rule ccontr)
    assume ne: "length pre \<noteq> length pre'"
    show False
    proof (cases "length pre < length pre'")
      case True
      from assms(1) True obtain us where "pre' = pre @ r # us" "post = us @ r' # post'"
        by (auto simp: append_eq_append_conv2 Cons_eq_append_conv append_eq_Cons_conv)
      then show False using assms(2,3) by (auto simp: first_latest_def)
    next
      case False
      with ne have "length pre' < length pre" by simp
      with assms(1) obtain us where "pre = pre' @ r' # us" "post' = us @ r # post"
        by (auto simp: append_eq_append_conv2 Cons_eq_append_conv append_eq_Cons_conv)
      then show False using assms(2,3) by (auto simp: first_latest_def)
    qed
  qed
  then show ?thesis using assms(1) by simp
qed


lemma latest_lookup_cases:
  "(filter (qualifies N k) rows = [] \<and> map_of (latestByIso3 N (Some rows)) k = None) \<or>
   (\<exists>pre r post v. filter (qualifies N k) rows = pre @ r # post \<and> wb_value r = Some v \<and>
      first_latest N pre r post \<and>
      map_of (latestByIso3 N (Some rows)) k = Some \<lparr>year = year_of N r, obs_value = v\<rparr>)"
  using latest_loop_char[of N k rows] by (simp add: latestByIso3_def)

text \<open>
  C10.  Tie-breaking of the reduction.  Among the observations of a country that the
  loop does not skip, taken in input order, let \<open>r\<close> be the first one of the latest
  year: every observation before it has a strictly smaller year and no observation after
  it has a greater one.  Then the entry stored for the country is the year and the value
  of \<open>r\<close>: a later observation of the same year does not replace it.  The result is a
  function of the input sequence.
\<close>

theorem latestByIso3_first_of_latest_year:
  assumes "filter (qualifies N k) rows = pre @ r # post"
    and "\<forall>p \<in> set pre. js_gt (year_of N r) (year_of N p)"
    and "\<forall>p \<in> set post. \<not> js_gt (year_of N p) (year_of N r)"
  shows "\<exists>v. wb_value r = Some v \<and>
           map_of (latestByIso3 N (Some rows)) k = Some \<lparr>year = year_of N r, obs_value = v\<rparr>"
proof -
  have fl: "first_latest N pre r post" using assms(2,3) by (simp add: first_latest_def)
  from latest_lookup_cases[of N k rows] assms(1)
  obtain pre' r' post' v where d: "pre @ r # post = pre' @ r' # post'"
    and v: "wb_value r' = Some v" and fl': "first_latest N pre' r' post'"
    and m: "map_of (latestByIso3 N (Some rows)) k = Some \<lparr>year = year_of N r', obs_value = v\<rparr>"
    by auto
  from first_latest_unique[OF d fl fl'] have "r = r'" by simp
  then show ?thesis using v m by simp
qed

theorem latestByIso3_first_of_latest_year_witness:
  "map_of (latestByIso3 (\<lambda>s. NaN) (Some
      [\<lparr>countryiso3code = Some ''USA'', wb_value = Some (Fin 1), wb_date = DateNum (Fin 2019)\<rparr>,
       \<lparr>countryiso3code = Some ''USA'', wb_value = Some (Fin 2), wb_date = DateNum (Fin 2020)\<rparr>,
       \<lparr>countryiso3code = Some ''CAN'', wb_value = Some (Fin 9), wb_date = DateNum (Fin 2021)\<rparr>,
       \<lparr>countryiso3code = Some ''USA'', wb_value = Some (Fin 3), wb_date = DateNum (Fin 2020)\<rparr>,
       \<lparr>countryiso3code = Some ''USA'', wb_value = Some (Fin 4), wb_date = DateNum (Fin 2018)\<rparr>]))
     ''USA'' = Some \<lparr>year = Fin 2020, obs_value = Fin 2\<rparr>"
  using latestByIso3_first_of_latest_year
    [of "\<lambda>s. NaN" "''USA''"
      "[\<lparr>countryiso3code = Some ''USA'', wb_value = Some (Fin 1), wb_date = DateNum (Fin 2019)\<rparr>,
       \<lparr>countryiso3code = Some ''USA'', wb_value = Some (Fin 2), wb_date = DateNum (Fin 2020)\<rparr>,
       \<lparr>countryiso3code = Some ''CAN'', wb_value = Some (Fin 9), wb_date = DateNum (Fin 2021)\<rparr>,
       \<lparr>countryiso3code = Some ''USA'', wb_value = Some (Fin 3), wb_date = DateNum (Fin 2020)\<rparr>,
       \<lparr>countryiso3code = Some ''USA'', wb_value = Some (Fin 4), wb_date = DateNum (Fin 2018)\<rparr>]"
      "[\<lparr>countryiso3code = Some ''USA'', wb_value = Some (Fin 1), wb_date = DateNum (Fin 2019)\<rparr>]"
      "\<lparr>countryiso3code = Some ''USA'', wb_value = Some (Fin 2), wb_date = DateNum (Fin 2020)\<rparr>"
      "[\<lparr>countryiso3code = Some ''USA'', wb_value = Some (Fin 3), wb_date = DateNum (Fin 2020)\<rparr>,
       \<lparr>countryiso3code = Some ''USA'', wb_value = Some (Fin 4), wb_date = DateNum (Fin 2018)\<rparr>]"]
  by (simp add: qualifies_def year_of_def)

text \<open>
  C4, as amended.  An observation takes part in the reduction unless its code is missing
  or empty, its year is not a finite number, or its value is \<^verbatim>\<open>null\<close> or missing; a
  value that is present takes part whatever it is, \<^verbatim>\<open>NaN\<close> included.  For every
  country the lookup has no entry exactly when no observation of the country takes
  part; otherwise its entry is the year and the value of one of them, and no observation
  of the country that takes part has a greater year.
\<close>

theorem latestByIso3_latest_qualifying:
  "(map_of (latestByIso3 N (Some rows)) k = None \<longleftrightarrow> (\<forall>it \<in> set rows. \<not> qualifies N k it)) \<and>
   (\<forall>e. map_of (latestByIso3 N (Some rows)) k = Some e \<longrightarrow>
      (\<exists>r \<in> set rows. qualifies N k r \<and> year e = year_of N r \<and> wb_value r = Some (obs_value e) \<and>
         (\<forall>p \<in> set rows. qualifies N k p \<longrightarrow> \<not> js_gt (year_of N p) (year e))))"
proof (intro conjI allI impI)
  show "map_of (latestByIso3 N (Some rows)) k = None \<longleftrightarrow> (\<forall>it \<in> set rows. \<not> qualifies N k it)"
    using latest_lookup_cases[of N k rows] by (auto simp: filter_empty_conv)
next
  fix e assume e: "map_of (latestByIso3 N (Some rows)) k = Some e"
  with latest_lookup_cases[of N k rows]
  obtain pre r post v where d: "filter (qualifies N k) rows = pre @ r # post"
    and v: "wb_value r = Some v" and fl: "first_latest N pre r post"
    and m: "e = \<lparr>year = year_of N r, obs_value = v\<rparr>"
    by auto
  have rin: "r \<in> set (filter (qualifies N k) rows)" using d by simp
  have fin: "\<And>p. qualifies N k p \<Longrightarrow> \<exists>b. year_of N p = Fin b"
    by (auto simp: qualifies_def year_of_def is_fin_conv)
  have "\<not> js_gt (year_of N p) (year e)" if p: "p \<in> set rows" "qualifies N k p" for p
  proof -
    from p have "p \<in> set (pre @ r # post)" using d[symmetric] by simp
    moreover obtain a b where "year_of N p = Fin a" "year_of N r = Fin b"
      using fin[OF p(2)] fin[of r] rin by auto
    ultimately show ?thesis using fl m by (auto simp: first_latest_def)
  qed
  then show "\<exists>r \<in> set rows. qualifies N k r \<and> year e = year_of N r \<and> wb_value r = Some (obs_value e) \<and>
         (\<forall>p \<in> set rows. qualifies N k p \<longrightarrow> \<not> js_gt (year_of N p) (year e))"
    using rin v m by (intro bexI[of _ r]) auto
qed

theorem latestByIso3_latest_qualifying_witness:
  "qualifies (\<lambda>s. NaN) ''USA''
      \<lparr>countryiso3code = Some ''USA'', wb_value = Some (Fin 7), wb_date = DateNum (Fin 2021)\<rparr>
   \<and> map_of (latestByIso3 (\<lambda>s. NaN) (Some
      [\<lparr>countryiso3code = Some ''USA'', wb_value = None, wb_date = DateNum (Fin 2022)\<rparr>,
       \<lparr>countryiso3code = Some ''USA'', wb_value = Some (Fin 7), wb_date = DateNum (Fin 2021)\<rparr>,
       \<lparr>countryiso3code = None, wb_value = Some (Fin 8), wb_date = DateNum (Fin 2023)\<rparr>]))
     ''USA'' \<noteq> None
   \<and> map_of (latestByIso3 (\<lambda>s. NaN) (Some
      [\<lparr>countryiso3code = Some ''USA'', wb_value = None, wb_date = DateNum (Fin 2022)\<rparr>,
       \<lparr>countryiso3code = Some ''USA'', wb_value = Some (Fin 7), wb_date = DateNum (Fin 2021)\<rparr>,
       \<lparr>countryiso3code = None, wb_value = Some (Fin 8), wb_date = DateNum (Fin 2023)\<rparr>]))
     ''CAN'' = None"
  using latestByIso3_latest_qualifying
    [of "\<lambda>s. NaN"
      "[\<lparr>countryiso3code = Some ''USA'', wb_value = None, wb_date = DateNum (Fin 2022)\<rparr>,
       \<lparr>countryiso3code = Some ''USA'', wb_value = Some (Fin 7), wb_date = DateNum (Fin 2021)\<rparr>,
       \<lparr>countryiso3code = None, wb_value = Some (Fin 8), wb_date = DateNum (Fin 2023)\<rparr>]" "''USA''"]
    latestByIso3_latest_qualifying
    [of "\<lambda>s. NaN"
      "[\<lparr>countryiso3code = Some ''USA'', wb_value = None, wb_date = DateNum (Fin 2022)\<rparr>,
       \<lparr>countryiso3code = Some ''USA'', wb_value = Some (Fin 7), wb_date = DateNum (Fin 2021)\<rparr>,
       \<lparr>countryiso3code = None, wb_value = Some (Fin 8), wb_date = DateNum (Fin 2023)\<rparr>]" "''CAN''"]
  by (simp add: qualifies_def)

text \<open>
  An observation whose value is \<^verbatim>\<open>NaN\<close> is not excluded: it replaces the numeric value
  of an earlier year and is what the lookup holds.
\<close>

theorem latestByIso3_keeps_NaN_value:
  "map_of (latestByIso3 (\<lambda>s. NaN) (Some
      [\<lparr>countryiso3code = Some ''USA'', wb_value = Some (Fin 5), wb_date = DateNum (Fin 2019)\<rparr>,
       \<lparr>countryiso3code = Some ''USA'', wb_value = Some NaN, wb_date = DateNum (Fin 2020)\<rparr>]))
     ''USA'' = Some \<lparr>year = Fin 2020, obs_value = NaN\<rparr>"
  by (simp add: latestByIso3_def latest_step_def)

section \<open>Properties of the medians per segment\<close>

lemma push_finite_eq:
  "push_finite (get_value m k) arr = arr @ map Fin (case finite_value m k of None \<Rightarrow> [] | Some x \<Rightarrow> [x])"
  by (cases "get_value m k"; cases "the (get_value m k)")
     (simp_all add: push_finite_def finite_value_def)

lemma segment_observations_Cons:
  "segment_observations m (c # cs) s =
     (if seg c = Some s then (case finite_value m (iso3 c) of None \<Rightarrow> [] | Some x \<Rightarrow> [x]) else [])
     @ segment_observations m cs s"
  by (simp add: segment_observations_def split: option.splits)

lemma segVals_loop_char:
  "mcap (segVals_loop f cs sv s) = mcap (sv s) @ map Fin (segment_observations (mcapPct f) cs s) \<and>
   credit (segVals_loop f cs sv s) = credit (sv s) @ map Fin (segment_observations (creditPct f) cs s) \<and>
   gdppc (segVals_loop f cs sv s) = gdppc (sv s) @ map Fin (segment_observations (gdpPc f) cs s) \<and>
   net (segVals_loop f cs sv s) = net (sv s) @ map Fin (segment_observations (netPct f) cs s)"
proof (induction cs arbitrary: sv)
  case Nil
  then show ?case by (simp add: segment_observations_def)
next
  case (Cons c cs)
  show ?case
  proof (cases "seg c")
    case None
    then show ?thesis using Cons.IH[of sv] by (simp add: segment_observations_Cons)
  next
    case (Some t)
    let ?sv = "sv(t := \<lparr>mcap = push_finite (get_value (mcapPct f) (iso3 c)) (mcap (sv t)),
                credit = push_finite (get_value (creditPct f) (iso3 c)) (credit (sv t)),
                gdppc = push_finite (get_value (gdpPc f) (iso3 c)) (gdppc (sv t)),
                net = push_finite (get_value (netPct f) (iso3 c)) (net (sv t))\<rparr>)"
    have step: "segVals_loop f (c # cs) sv = segVals_loop f cs ?sv"
      using Some by simp
    note ih0 = Cons.IH[of ?sv]
    note ih = ih0[THEN conjunct1] ih0[THEN conjunct2, THEN conjunct1]
      ih0[THEN conjunct2, THEN conjunct2, THEN conjunct1]
      ih0[THEN conjunct2, THEN conjunct2, THEN conjunct2]
    show ?thesis
    proof (cases "s = t")
      case True
      show ?thesis unfolding step ih using True Some
        by (simp add: segment_observations_Cons push_finite_eq)
    next
      case False
      show ?thesis unfolding step ih using False Some
        by (simp add: segment_observations_Cons)
    qed
  qed
qed

lemma finite_values_map_Fin: "finite_values (map Fin xs) = xs"
  by (induction xs) simp_all

lemma median_map_Fin:
  "median (map Fin xs) = (if xs = [] then None else Some (Fin (spec_median xs)))"
proof -
  have e: "sort xs = [] \<longleftrightarrow> xs = []"
    by (metis length_sort length_0_conv)
  show ?thesis
    by (simp add: median_def spec_median_def finite_values_map_Fin Let_def odd_iff_mod_2_eq_one e)
qed

lemma median_or_map_Fin:
  "median_or (map Fin xs) d = (if xs = [] then Fin d else Fin (spec_median xs))"
  by (simp add: median_or_def median_map_Fin)

text \<open>
  C9.  For every segment and each of the four scoring indicators, the fallback is the
  median of the finite values observed for the countries of the segment (the middle
  element of the sorted values for an odd count, the average of the two middle ones for
  an even count), and the fixed default when the segment has no finite observation: 30
  for market capitalisation, 50 for credit, 8000 for GDP per capita, 55 for internet
  use.  The median of 10, 20, 30 is 20, that of 10, 20 is 15, and the empty input has no
  median.
\<close>

theorem segMedian_is_median_or_default:
  "mcap (segMedian_of f countries s) =
     (if segment_observations (mcapPct f) countries s = [] then Fin 30
      else Fin (spec_median (segment_observations (mcapPct f) countries s)))
   \<and> credit (segMedian_of f countries s) =
     (if segment_observations (creditPct f) countries s = [] then Fin 50
      else Fin (spec_median (segment_observations (creditPct f) countries s)))
   \<and> gdppc (segMedian_of f countries s) =
     (if segment_observations (gdpPc f) countries s = [] then Fin 8000
      else Fin (spec_median (segment_observations (gdpPc f) countries s)))
   \<and> net (segMedian_of f countries s) =
     (if segment_observations (netPct f) countries s = [] then Fin 55
      else Fin (spec_median (segment_observations (netPct f) countries s)))
   \<and> median [Fin 10, Fin 20, Fin 30] = Some (Fin 20)
   \<and> median [Fin 10, Fin 20] = Some (Fin 15)
   \<and> median [] = None"
proof -
  have sv: "mcap (segVals_of f countries s) = map Fin (segment_observations (mcapPct f) countries s)"
    "credit (segVals_of f countries s) = map Fin (segment_observations (creditPct f) countries s)"
    "gdppc (segVals_of f countries s) = map Fin (segment_observations (gdpPc f) countries s)"
    "net (segVals_of f countries s) = map Fin (segment_observations (netPct f) countries s)"
    using segVals_loop_char[of f countries "\<lambda>s. \<lparr>mcap = [], credit = [], gdppc = [], net = []\<rparr>" s]
    by (simp_all add: segVals_of_def)
  have ex: "median [Fin 10, Fin 20, Fin 30] = Some (Fin 20)" "median [Fin 10, Fin 20] = Some (Fin 15)"
    "median [] = None"
    by (simp_all add: median_def)
  show ?thesis
    unfolding segMedian_of_def sv median_or_map_Fin using ex by simp
qed

section \<open>Properties of the scores\<close>

lemma score_of_iso3:
  "iso3 c = iso3 c' \<Longrightarrow> score_of f M s c = score_of f M s c'"
  by (simp add: score_of_def Let_def)

lemma scores_loop_other:
  "\<forall>c \<in> set cs. \<not> (seg c = Some s \<and> iso3 c = k) \<Longrightarrow>
   map_of (scores_loop f M cs sc s) k = map_of (sc s) k"
proof (induction cs arbitrary: sc)
  case Nil
  then show ?case by simp
next
  case (Cons d ds)
  show ?case
  proof (cases "seg d")
    case None
    then show ?thesis using Cons by simp
  next
    case (Some t)
    let ?sc = "sc(t := AList.update (iso3 d) (score_of f M t d) (sc t))"
    have step: "scores_loop f M (d # ds) sc = scores_loop f M ds ?sc"
      using Some by simp
    have "map_of (scores_loop f M ds ?sc s) k = map_of (?sc s) k"
      by (rule Cons.IH) (use Cons.prems in auto)
    also have "\<dots> = map_of (sc s) k"
      using Some Cons.prems by (auto simp: update_conv)
    finally show ?thesis unfolding step .
  qed
qed

lemma scores_loop_lookup:
  "c \<in> set cs \<Longrightarrow> seg c = Some s \<Longrightarrow>
   map_of (scores_loop f M cs sc s) (iso3 c) = Some (score_of f M s c)"
proof (induction cs arbitrary: sc c)
  case Nil
  then show ?case by simp
next
  case (Cons d ds)
  let ?sc = "case seg d of None \<Rightarrow> sc
             | Some t \<Rightarrow> sc(t := AList.update (iso3 d) (score_of f M t d) (sc t))"
  have step: "scores_loop f M (d # ds) sc = scores_loop f M ds ?sc"
    by (simp split: option.splits)
  show ?case
  proof (cases "\<exists>c' \<in> set ds. seg c' = Some s \<and> iso3 c' = iso3 c")
    case True
    then obtain c' where c': "c' \<in> set ds" "seg c' = Some s" "iso3 c' = iso3 c" by blast
    have "map_of (scores_loop f M ds ?sc s) (iso3 c') = Some (score_of f M s c')"
      by (rule Cons.IH[OF c'(1,2)])
    then show ?thesis unfolding step using c'(3) score_of_iso3[OF c'(3), of f M s] by simp
  next
    case False
    then have cd: "c = d" using Cons.prems by auto
    have "map_of (scores_loop f M ds ?sc s) (iso3 c) = map_of (?sc s) (iso3 c)"
      using False by (intro scores_loop_other) blast
    also have "\<dots> = Some (score_of f M s c)"
      using cd Cons.prems(2) by (simp add: update_conv)
    finally show ?thesis unfolding step .
  qed
qed

lemma scores_of_lookup:
  "c \<in> set countries \<Longrightarrow> seg c = Some s \<Longrightarrow>
   map_of (scores_of f countries s) (iso3 c) = Some (score_of f (segMedian_of f countries) s c)"
  by (simp add: scores_of_def scores_loop_lookup)

lemma clamp_not_NaN:
  "x \<noteq> NaN \<Longrightarrow> lo \<le> hi \<Longrightarrow> \<exists>v. clamp x (Fin lo) (Fin hi) = Fin v \<and> lo \<le> v \<and> v \<le> hi"
  by (cases x) (auto simp: clamp_def)

lemma clamp_NaN: "clamp NaN lo hi = NaN"
  by (cases hi; cases lo) (simp_all add: clamp_def)

lemma clamp_Fin: "lo \<le> hi \<Longrightarrow> clamp (Fin x) (Fin lo) (Fin hi) = Fin (max lo (min hi x))"
  by (auto simp: clamp_def)

lemma score_of_usable:
  assumes g: "get_value (gdp f) (iso3 c) = Some (Fin g)" "0 < g"
    and cl: "clamp (value_or (mcapPct f) (iso3 c) (mcap (M s))) (Fin 0) (Fin 400) = Fin m"
      "clamp (value_or (creditPct f) (iso3 c) (credit (M s))) (Fin 0) (Fin 300) = Fin cr"
      "clamp (value_or (gdpPc f) (iso3 c) (gdppc (M s))) (Fin 0) (Fin 80000) = Fin gp"
      "clamp (value_or (netPct f) (iso3 c) (net (M s))) (Fin 0) (Fin 100) = Fin n"
    and b: "0 \<le> m" "0 \<le> cr" "0 \<le> gp" "0 \<le> n"
  shows "score_of f M s c = Fin (composite_score g m cr gp n * override_multiplier (iso3 c))"
proof -
  have pos: "0 < 1 + m / 100" "0 < 1 + cr / 100" "0 < 1 + gp / 50000" "0 < 0.2 + n / 100"
    using b by (simp_all add: add_pos_nonneg)
  show ?thesis
    using g pos
    by (simp add: score_of_def cl Let_def composite_score_def override_multiplier_def
        hub_multiplier_def OFFICE_MULT_def NEAR_ZERO_MULT_def split: option.splits)
qed


lemma js_mul_NaN [simp]: "js_mul x NaN = NaN" "js_mul NaN x = NaN"
  by (cases x; simp)+

lemma js_add_NaN [simp]: "js_add x NaN = NaN" "js_add NaN x = NaN"
  by (cases x; simp)+

lemma js_div_NaN [simp]: "js_div x NaN = NaN" "js_div NaN x = NaN"
  by (cases x; simp)+

lemma score_of_NaN:
  assumes g: "get_value (gdp f) (iso3 c) = Some (Fin g)" "0 < g"
    and n: "value_or (mcapPct f) (iso3 c) (mcap (M s)) = NaN \<or>
            value_or (creditPct f) (iso3 c) (credit (M s)) = NaN \<or>
            value_or (gdpPc f) (iso3 c) (gdppc (M s)) = NaN \<or>
            value_or (netPct f) (iso3 c) (net (M s)) = NaN"
  shows "score_of f M s c = NaN"
  using n g
  by (elim disjE) (simp_all add: score_of_def Let_def clamp_NaN split: option.splits)

text \<open>
  The resolved indicator read from the feeds: the value stored for the country when the
  feed has one, otherwise the fallback of the segment, which is the median of the finite
  observations of the segment or the default.  The clamp of a value that is not
  \<^verbatim>\<open>NaN\<close> is the real \<open>clamped lo hi r\<close>.
\<close>

lemma value_or_cases:
  "value_or m k d = (case map_of m k of None \<Rightarrow> d | Some e \<Rightarrow> obs_value e)"
  by (simp add: value_or_def get_value_def split: option.splits)

lemma segMedian_fields:
  "mcap (segMedian_of f cs s) =
     (if segment_observations (mcapPct f) cs s = [] then Fin 30
      else Fin (spec_median (segment_observations (mcapPct f) cs s)))"
  "credit (segMedian_of f cs s) =
     (if segment_observations (creditPct f) cs s = [] then Fin 50
      else Fin (spec_median (segment_observations (creditPct f) cs s)))"
  "gdppc (segMedian_of f cs s) =
     (if segment_observations (gdpPc f) cs s = [] then Fin 8000
      else Fin (spec_median (segment_observations (gdpPc f) cs s)))"
  "net (segMedian_of f cs s) =
     (if segment_observations (netPct f) cs s = [] then Fin 55
      else Fin (spec_median (segment_observations (netPct f) cs s)))"
proof -
  have sv: "mcap (segVals_of f cs s) = map Fin (segment_observations (mcapPct f) cs s)"
    "credit (segVals_of f cs s) = map Fin (segment_observations (creditPct f) cs s)"
    "gdppc (segVals_of f cs s) = map Fin (segment_observations (gdpPc f) cs s)"
    "net (segVals_of f cs s) = map Fin (segment_observations (netPct f) cs s)"
    using segVals_loop_char[of f cs "\<lambda>s. \<lparr>mcap = [], credit = [], gdppc = [], net = []\<rparr>" s]
    by (simp_all add: segVals_of_def)
  show "mcap (segMedian_of f cs s) =
     (if segment_observations (mcapPct f) cs s = [] then Fin 30
      else Fin (spec_median (segment_observations (mcapPct f) cs s)))"
    unfolding segMedian_of_def sv median_or_map_Fin by simp
  show "credit (segMedian_of f cs s) =
     (if segment_observations (creditPct f) cs s = [] then Fin 50
      else Fin (spec_median (segment_observations (creditPct f) cs s)))"
    unfolding segMedian_of_def sv median_or_map_Fin by simp
  show "gdppc (segMedian_of f cs s) =
     (if segment_observations (gdpPc f) cs s = [] then Fin 8000
      else Fin (spec_median (segment_observations (gdpPc f) cs s)))"
    unfolding segMedian_of_def sv median_or_map_Fin by simp
  show "net (segMedian_of f cs s) =
     (if segment_observations (netPct f) cs s = [] then Fin 55
      else Fin (spec_median (segment_observations (netPct f) cs s)))"
    unfolding segMedian_of_def sv median_or_map_Fin by simp
qed

lemma clamp_clamped:
  "r \<noteq> NaN \<Longrightarrow> lo \<le> hi \<Longrightarrow>
   clamp r (Fin lo) (Fin hi) = Fin (clamped lo hi r) \<and> lo \<le> clamped lo hi r"
  by (cases r) (auto simp: clamp_def)

text \<open>
  C5.  Take a country of the list with a segment whose GDP feed holds a finite
  \<open>g > 0\<close>.  Let each of the four indicators be resolved from the feeds: the value
  stored for the country itself when its feed has one, otherwise the median of the
  finite observations of the segment (30, 50, 8000, 55 when the segment has none).  When
  none of the four is \<^verbatim>\<open>NaN\<close>, the score stored under the code of the country in the map of
  its segment is \<open>g\<close> to the power 0.70, times one plus the market capitalisation
  clamped to 0..400 over 100, to the power 0.90, times one plus the credit clamped to
  0..300 over 100, to the power 0.60, times one plus the GDP per capita clamped to
  0..80000 over 50000, to the power 0.35, times 0.2 plus the internet use clamped to
  0..100 over 100, to the power 0.25, times the hub multiplier of the table (1.0 when
  absent), times 1.15 for an office country, times 0.01 for a near-zero country.  When
  one of the four is \<^verbatim>\<open>NaN\<close>, the stored score is \<^verbatim>\<open>NaN\<close>, as the formula is.
\<close>

theorem stored_score_formula:
  assumes "c \<in> set countries" and "seg c = Some s"
    and "map_of (gdp f) (iso3 c) = Some eg" and "obs_value eg = Fin g" and "0 < g"
    and "rm = (case map_of (mcapPct f) (iso3 c) of
                 Some e \<Rightarrow> obs_value e
               | None \<Rightarrow> if segment_observations (mcapPct f) countries s = [] then Fin 30
                          else Fin (spec_median (segment_observations (mcapPct f) countries s)))"
    and "rc = (case map_of (creditPct f) (iso3 c) of
                 Some e \<Rightarrow> obs_value e
               | None \<Rightarrow> if segment_observations (creditPct f) countries s = [] then Fin 50
                          else Fin (spec_median (segment_observations (creditPct f) countries s)))"
    and "rw = (case map_of (gdpPc f) (iso3 c) of
                 Some e \<Rightarrow> obs_value e
               | None \<Rightarrow> if segment_observations (gdpPc f) countries s = [] then Fin 8000
                          else Fin (spec_median (segment_observations (gdpPc f) countries s)))"
    and "rn = (case map_of (netPct f) (iso3 c) of
                 Some e \<Rightarrow> obs_value e
               | None \<Rightarrow> if segment_observations (netPct f) countries s = [] then Fin 55
                          else Fin (spec_median (segment_observations (netPct f) countries s)))"
  shows
    "(rm \<noteq> NaN \<and> rc \<noteq> NaN \<and> rw \<noteq> NaN \<and> rn \<noteq> NaN \<longrightarrow>
        map_of (scores_of f countries s) (iso3 c) =
          Some (Fin (g powr 0.70
                     * (1 + clamped 0 400 rm / 100) powr 0.90
                     * (1 + clamped 0 300 rc / 100) powr 0.60
                     * (1 + clamped 0 80000 rw / 50000) powr 0.35
                     * (0.2 + clamped 0 100 rn / 100) powr 0.25
                     * (case map_of HUB_MULT (iso3 c) of None \<Rightarrow> 1.0 | Some h \<Rightarrow> h)
                     * (if iso3 c \<in> set OFFICE_COUNTRIES then 1.15 else 1)
                     * (if iso3 c \<in> set NEAR_ZERO then 0.01 else 1))))
     \<and> (rm = NaN \<or> rc = NaN \<or> rw = NaN \<or> rn = NaN \<longrightarrow>
        map_of (scores_of f countries s) (iso3 c) = Some NaN)"
proof -
  let ?M = "segMedian_of f countries"
  have gv: "get_value (gdp f) (iso3 c) = Some (Fin g)"
    using assms(3,4) by (simp add: get_value_def)
  have r: "value_or (mcapPct f) (iso3 c) (mcap (?M s)) = rm"
    "value_or (creditPct f) (iso3 c) (credit (?M s)) = rc"
    "value_or (gdpPc f) (iso3 c) (gdppc (?M s)) = rw"
    "value_or (netPct f) (iso3 c) (net (?M s)) = rn"
    unfolding value_or_cases segMedian_fields assms(6-9) by (simp_all split: option.splits)
  have look: "map_of (scores_of f countries s) (iso3 c) = Some (score_of f ?M s c)"
    using assms(1,2) by (rule scores_of_lookup)
  show ?thesis
  proof (intro conjI impI)
    assume nn: "rm \<noteq> NaN \<and> rc \<noteq> NaN \<and> rw \<noteq> NaN \<and> rn \<noteq> NaN"
    have m: "clamp rm (Fin 0) (Fin 400) = Fin (clamped 0 400 rm)" "0 \<le> clamped 0 400 rm"
      using clamp_clamped[of rm 0 400] nn by simp_all
    have cr: "clamp rc (Fin 0) (Fin 300) = Fin (clamped 0 300 rc)" "0 \<le> clamped 0 300 rc"
      using clamp_clamped[of rc 0 300] nn by simp_all
    have w: "clamp rw (Fin 0) (Fin 80000) = Fin (clamped 0 80000 rw)" "0 \<le> clamped 0 80000 rw"
      using clamp_clamped[of rw 0 80000] nn by simp_all
    have n: "clamp rn (Fin 0) (Fin 100) = Fin (clamped 0 100 rn)" "0 \<le> clamped 0 100 rn"
      using clamp_clamped[of rn 0 100] nn by simp_all
    have "score_of f ?M s c = Fin (composite_score g (clamped 0 400 rm) (clamped 0 300 rc)
              (clamped 0 80000 rw) (clamped 0 100 rn) * override_multiplier (iso3 c))"
      by (rule score_of_usable[OF gv assms(5)]) (simp_all only: r m cr w n)
    then show "map_of (scores_of f countries s) (iso3 c) =
          Some (Fin (g powr 0.70
                     * (1 + clamped 0 400 rm / 100) powr 0.90
                     * (1 + clamped 0 300 rc / 100) powr 0.60
                     * (1 + clamped 0 80000 rw / 50000) powr 0.35
                     * (0.2 + clamped 0 100 rn / 100) powr 0.25
                     * (case map_of HUB_MULT (iso3 c) of None \<Rightarrow> 1.0 | Some h \<Rightarrow> h)
                     * (if iso3 c \<in> set OFFICE_COUNTRIES then 1.15 else 1)
                     * (if iso3 c \<in> set NEAR_ZERO then 0.01 else 1)))"
      unfolding look
      by (simp only: composite_score_def override_multiplier_def hub_multiplier_def mult.assoc)
  next
    assume "rm = NaN \<or> rc = NaN \<or> rw = NaN \<or> rn = NaN"
    then have "score_of f ?M s c = NaN"
      using gv assms(5) by (intro score_of_NaN) (simp_all only: r)
    then show "map_of (scores_of f countries s) (iso3 c) = Some NaN"
      unfolding look by simp
  qed
qed


theorem stored_score_formula_witness:
  "map_of (scores_of
       \<lparr>gdp = [(''USA'', \<lparr>year = Fin 2023, obs_value = Fin 1000\<rparr>),
               (''MEX'', \<lparr>year = Fin 2023, obs_value = Fin 2000\<rparr>)],
        mcapPct = [(''USA'', \<lparr>year = Fin 2022, obs_value = Fin 500\<rparr>),
                   (''CAN'', \<lparr>year = Fin 2022, obs_value = Fin 100\<rparr>)],
        creditPct = [(''CAN'', \<lparr>year = Fin 2022, obs_value = Fin 80\<rparr>)],
        gdpPc = [(''USA'', \<lparr>year = Fin 2023, obs_value = Fin 100000\<rparr>),
                 (''CAN'', \<lparr>year = Fin 2023, obs_value = Fin 20000\<rparr>),
                 (''MEX'', \<lparr>year = Fin 2023, obs_value = Fin 10000\<rparr>)],
        netPct = [(''USA'', \<lparr>year = Fin 2021, obs_value = Fin 90\<rparr>)],
        pop = []\<rparr>
       [\<lparr>iso3 = ''USA'', alpha2 = None, name = ''U'', region = Some ''Americas'', subRegion = None, seg = Some AMERICAS\<rparr>,
        \<lparr>iso3 = ''CAN'', alpha2 = None, name = ''C'', region = Some ''Americas'', subRegion = None, seg = Some AMERICAS\<rparr>,
        \<lparr>iso3 = ''MEX'', alpha2 = None, name = ''M'', region = Some ''Americas'', subRegion = None, seg = Some AMERICAS\<rparr>]
       AMERICAS) ''USA''
     = Some (Fin (1000 powr 0.70 * (1 + 400 / 100) powr 0.90 * (1 + 80 / 100) powr 0.60
                  * (1 + 80000 / 50000) powr 0.35 * (0.2 + 90 / 100) powr 0.25
                  * 1.3 * 1.15 * 1))
   \<and> map_of (scores_of
       \<lparr>gdp = [(''USA'', \<lparr>year = Fin 2023, obs_value = Fin 1000\<rparr>),
               (''MEX'', \<lparr>year = Fin 2023, obs_value = Fin 2000\<rparr>)],
        mcapPct = [(''USA'', \<lparr>year = Fin 2022, obs_value = Fin 500\<rparr>),
                   (''CAN'', \<lparr>year = Fin 2022, obs_value = Fin 100\<rparr>)],
        creditPct = [(''CAN'', \<lparr>year = Fin 2022, obs_value = Fin 80\<rparr>)],
        gdpPc = [(''USA'', \<lparr>year = Fin 2023, obs_value = Fin 100000\<rparr>),
                 (''CAN'', \<lparr>year = Fin 2023, obs_value = Fin 20000\<rparr>),
                 (''MEX'', \<lparr>year = Fin 2023, obs_value = Fin 10000\<rparr>)],
        netPct = [(''USA'', \<lparr>year = Fin 2021, obs_value = Fin 90\<rparr>)],
        pop = []\<rparr>
       [\<lparr>iso3 = ''USA'', alpha2 = None, name = ''U'', region = Some ''Americas'', subRegion = None, seg = Some AMERICAS\<rparr>,
        \<lparr>iso3 = ''CAN'', alpha2 = None, name = ''C'', region = Some ''Americas'', subRegion = None, seg = Some AMERICAS\<rparr>,
        \<lparr>iso3 = ''MEX'', alpha2 = None, name = ''M'', region = Some ''Americas'', subRegion = None, seg = Some AMERICAS\<rparr>]
       AMERICAS) ''MEX''
     = Some (Fin (2000 powr 0.70 * (1 + 300 / 100) powr 0.90 * (1 + 80 / 100) powr 0.60
                  * (1 + 10000 / 50000) powr 0.35 * (0.2 + 90 / 100) powr 0.25
                  * 1.0 * 1 * 1))"
  using stored_score_formula
    [of "\<lparr>iso3 = ''USA'', alpha2 = None, name = ''U'', region = Some ''Americas'', subRegion = None, seg = Some AMERICAS\<rparr>"
        "[\<lparr>iso3 = ''USA'', alpha2 = None, name = ''U'', region = Some ''Americas'', subRegion = None, seg = Some AMERICAS\<rparr>,
        \<lparr>iso3 = ''CAN'', alpha2 = None, name = ''C'', region = Some ''Americas'', subRegion = None, seg = Some AMERICAS\<rparr>,
        \<lparr>iso3 = ''MEX'', alpha2 = None, name = ''M'', region = Some ''Americas'', subRegion = None, seg = Some AMERICAS\<rparr>]"
        AMERICAS
        "\<lparr>gdp = [(''USA'', \<lparr>year = Fin 2023, obs_value = Fin 1000\<rparr>),
               (''MEX'', \<lparr>year = Fin 2023, obs_value = Fin 2000\<rparr>)],
        mcapPct = [(''USA'', \<lparr>year = Fin 2022, obs_value = Fin 500\<rparr>),
                   (''CAN'', \<lparr>year = Fin 2022, obs_value = Fin 100\<rparr>)],
        creditPct = [(''CAN'', \<lparr>year = Fin 2022, obs_value = Fin 80\<rparr>)],
        gdpPc = [(''USA'', \<lparr>year = Fin 2023, obs_value = Fin 100000\<rparr>),
                 (''CAN'', \<lparr>year = Fin 2023, obs_value = Fin 20000\<rparr>),
                 (''MEX'', \<lparr>year = Fin 2023, obs_value = Fin 10000\<rparr>)],
        netPct = [(''USA'', \<lparr>year = Fin 2021, obs_value = Fin 90\<rparr>)],
        pop = []\<rparr>"
        "\<lparr>year = Fin 2023, obs_value = Fin 1000\<rparr>" 1000 "Fin 500" "Fin 80" "Fin 100000" "Fin 90"]
    stored_score_formula
    [of "\<lparr>iso3 = ''MEX'', alpha2 = None, name = ''M'', region = Some ''Americas'', subRegion = None, seg = Some AMERICAS\<rparr>"
        "[\<lparr>iso3 = ''USA'', alpha2 = None, name = ''U'', region = Some ''Americas'', subRegion = None, seg = Some AMERICAS\<rparr>,
        \<lparr>iso3 = ''CAN'', alpha2 = None, name = ''C'', region = Some ''Americas'', subRegion = None, seg = Some AMERICAS\<rparr>,
        \<lparr>iso3 = ''MEX'', alpha2 = None, name = ''M'', region = Some ''Americas'', subRegion = None, seg = Some AMERICAS\<rparr>]"
        AMERICAS
        "\<lparr>gdp = [(''USA'', \<lparr>year = Fin 2023, obs_value = Fin 1000\<rparr>),
               (''MEX'', \<lparr>year = Fin 2023, obs_value = Fin 2000\<rparr>)],
        mcapPct = [(''USA'', \<lparr>year = Fin 2022, obs_value = Fin 500\<rparr>),
                   (''CAN'', \<lparr>year = Fin 2022, obs_value = Fin 100\<rparr>)],
        creditPct = [(''CAN'', \<lparr>year = Fin 2022, obs_value = Fin 80\<rparr>)],
        gdpPc = [(''USA'', \<lparr>year = Fin 2023, obs_value = Fin 100000\<rparr>),
                 (''CAN'', \<lparr>year = Fin 2023, obs_value = Fin 20000\<rparr>),
                 (''MEX'', \<lparr>year = Fin 2023, obs_value = Fin 10000\<rparr>)],
        netPct = [(''USA'', \<lparr>year = Fin 2021, obs_value = Fin 90\<rparr>)],
        pop = []\<rparr>"
        "\<lparr>year = Fin 2023, obs_value = Fin 2000\<rparr>" 2000 "Fin 300" "Fin 80" "Fin 10000" "Fin 90"]
  by (simp add: segment_observations_def finite_value_def get_value_def spec_median_def
      HUB_MULT_def OFFICE_COUNTRIES_def NEAR_ZERO_def)

section \<open>The computation on concrete feeds\<close>

text \<open>The definitions that evaluate the computation on a concrete input.\<close>

lemmas eval_defs = reduce_feeds_def latestByIso3_def latest_step_def value_or_def get_value_def
  segMedian_of_def segVals_of_def push_finite_def median_or_def median_def clamp_def
  scores_of_def score_of_def exposure_def allocations_of_def segment_rows_def segment_keys_def
  allocation_row_def total_revenue_def share_of_def detail_of_row_def zero_detail_def
  SEGMENT_REVENUE_USD_M_def segment_name_def HUB_MULT_def OFFICE_COUNTRIES_def NEAR_ZERO_def
  OFFICE_MULT_def NEAR_ZERO_MULT_def Let_def

text \<open>
  C3.  The claim: an indicator whose stored value is not finite resolves to the median
  of the segment.  The program on two countries of the Americas: the first has GDP 1000,
  a market-capitalisation value \<^verbatim>\<open>NaN\<close> and a credit value \<^verbatim>\<open>Infinity\<close>; the second has
  the finite values 50 and 80, which are the medians of the segment.  The resolved
  market capitalisation of the first country is \<^verbatim>\<open>NaN\<close>, not 50, its resolved credit is
  \<^verbatim>\<open>Infinity\<close>, not 80, and its score is \<^verbatim>\<open>NaN\<close>.
\<close>

theorem non_finite_indicator_not_replaced_by_median:
  "mcap (segMedian_of
      (reduce_feeds (\<lambda>s. NaN)
        (Some [\<lparr>countryiso3code = Some ''AAA'', wb_value = Some (Fin 1000), wb_date = DateNum (Fin 2023)\<rparr>,
               \<lparr>countryiso3code = Some ''BBB'', wb_value = Some (Fin 2000), wb_date = DateNum (Fin 2023)\<rparr>])
        (Some [\<lparr>countryiso3code = Some ''AAA'', wb_value = Some NaN, wb_date = DateNum (Fin 2023)\<rparr>,
               \<lparr>countryiso3code = Some ''BBB'', wb_value = Some (Fin 50), wb_date = DateNum (Fin 2023)\<rparr>])
        (Some [\<lparr>countryiso3code = Some ''AAA'', wb_value = Some PInf, wb_date = DateNum (Fin 2023)\<rparr>,
               \<lparr>countryiso3code = Some ''BBB'', wb_value = Some (Fin 80), wb_date = DateNum (Fin 2023)\<rparr>])
        None None None)
      [\<lparr>iso3 = ''AAA'', alpha2 = None, name = ''A'', region = Some ''Americas'', subRegion = None, seg = Some AMERICAS\<rparr>,
       \<lparr>iso3 = ''BBB'', alpha2 = None, name = ''B'', region = Some ''Americas'', subRegion = None, seg = Some AMERICAS\<rparr>]
      AMERICAS) = Fin 50
   \<and> value_or (mcapPct
      (reduce_feeds (\<lambda>s. NaN)
        (Some [\<lparr>countryiso3code = Some ''AAA'', wb_value = Some (Fin 1000), wb_date = DateNum (Fin 2023)\<rparr>,
               \<lparr>countryiso3code = Some ''BBB'', wb_value = Some (Fin 2000), wb_date = DateNum (Fin 2023)\<rparr>])
        (Some [\<lparr>countryiso3code = Some ''AAA'', wb_value = Some NaN, wb_date = DateNum (Fin 2023)\<rparr>,
               \<lparr>countryiso3code = Some ''BBB'', wb_value = Some (Fin 50), wb_date = DateNum (Fin 2023)\<rparr>])
        (Some [\<lparr>countryiso3code = Some ''AAA'', wb_value = Some PInf, wb_date = DateNum (Fin 2023)\<rparr>,
               \<lparr>countryiso3code = Some ''BBB'', wb_value = Some (Fin 80), wb_date = DateNum (Fin 2023)\<rparr>])
        None None None)) ''AAA'' (Fin 50) = NaN
   \<and> credit (segMedian_of
      (reduce_feeds (\<lambda>s. NaN)
        (Some [\<lparr>countryiso3code = Some ''AAA'', wb_value = Some (Fin 1000), wb_date = DateNum (Fin 2023)\<rparr>,
               \<lparr>countryiso3code = Some ''BBB'', wb_value = Some (Fin 2000), wb_date = DateNum (Fin 2023)\<rparr>])
        (Some [\<lparr>countryiso3code = Some ''AAA'', wb_value = Some NaN, wb_date = DateNum (Fin 2023)\<rparr>,
               \<lparr>countryiso3code = Some ''BBB'', wb_value = Some (Fin 50), wb_date = DateNum (Fin 2023)\<rparr>])
        (Some [\<lparr>countryiso3code = Some ''AAA'', wb_value = Some PInf, wb_date = DateNum (Fin 2023)\<rparr>,
               \<lparr>countryiso3code = Some ''BBB'', wb_value = Some (Fin 80), wb_date = DateNum (Fin 2023)\<rparr>])
        None None None)
      [\<lparr>iso3 = ''AAA'', alpha2 = None, name = ''A'', region = Some ''Americas'', subRegion = None, seg = Some AMERICAS\<rparr>,
       \<lparr>iso3 = ''BBB'', alpha2 = None, name = ''B'', region = Some ''Americas'', subRegion = None, seg = Some AMERICAS\<rparr>]
      AMERICAS) = Fin 80
   \<and> value_or (creditPct
      (reduce_feeds (\<lambda>s. NaN)
        (Some [\<lparr>countryiso3code = Some ''AAA'', wb_value = Some (Fin 1000), wb_date = DateNum (Fin 2023)\<rparr>,
               \<lparr>countryiso3code = Some ''BBB'', wb_value = Some (Fin 2000), wb_date = DateNum (Fin 2023)\<rparr>])
        (Some [\<lparr>countryiso3code = Some ''AAA'', wb_value = Some NaN, wb_date = DateNum (Fin 2023)\<rparr>,
               \<lparr>countryiso3code = Some ''BBB'', wb_value = Some (Fin 50), wb_date = DateNum (Fin 2023)\<rparr>])
        (Some [\<lparr>countryiso3code = Some ''AAA'', wb_value = Some PInf, wb_date = DateNum (Fin 2023)\<rparr>,
               \<lparr>countryiso3code = Some ''BBB'', wb_value = Some (Fin 80), wb_date = DateNum (Fin 2023)\<rparr>])
        None None None)) ''AAA'' (Fin 80) = PInf
   \<and> map_of (scores_of
      (reduce_feeds (\<lambda>s. NaN)
        (Some [\<lparr>countryiso3code = Some ''AAA'', wb_value = Some (Fin 1000), wb_date = DateNum (Fin 2023)\<rparr>,
               \<lparr>countryiso3code = Some ''BBB'', wb_value = Some (Fin 2000), wb_date = DateNum (Fin 2023)\<rparr>])
        (Some [\<lparr>countryiso3code = Some ''AAA'', wb_value = Some NaN, wb_date = DateNum (Fin 2023)\<rparr>,
               \<lparr>countryiso3code = Some ''BBB'', wb_value = Some (Fin 50), wb_date = DateNum (Fin 2023)\<rparr>])
        (Some [\<lparr>countryiso3code = Some ''AAA'', wb_value = Some PInf, wb_date = DateNum (Fin 2023)\<rparr>,
               \<lparr>countryiso3code = Some ''BBB'', wb_value = Some (Fin 80), wb_date = DateNum (Fin 2023)\<rparr>])
        None None None)
      [\<lparr>iso3 = ''AAA'', alpha2 = None, name = ''A'', region = Some ''Americas'', subRegion = None, seg = Some AMERICAS\<rparr>,
       \<lparr>iso3 = ''BBB'', alpha2 = None, name = ''B'', region = Some ''Americas'', subRegion = None, seg = Some AMERICAS\<rparr>]
      AMERICAS) ''AAA'' = Some NaN"
  by (simp add: eval_defs)

text \<open>
  C6.  The claim: a country with a segment and no usable GDP has the score \<^verbatim>\<open>1e-9\<close> and a
  strictly positive revenue.  The program on two countries of the Americas: the first
  has no GDP, the second has GDP 2000 and a market-capitalisation value \<^verbatim>\<open>NaN\<close>.  The
  first country has the score \<^verbatim>\<open>1e-9\<close>, and its revenue is 0: the score of the second
  is \<^verbatim>\<open>NaN\<close>, so is the sum of the segment, and every share of the segment is 0.
\<close>

theorem missing_gdp_country_gets_zero_revenue:
  "map_of (scores_of
      (reduce_feeds (\<lambda>s. NaN)
        (Some [\<lparr>countryiso3code = Some ''BBB'', wb_value = Some (Fin 2000), wb_date = DateNum (Fin 2023)\<rparr>])
        (Some [\<lparr>countryiso3code = Some ''BBB'', wb_value = Some NaN, wb_date = DateNum (Fin 2023)\<rparr>])
        None None None None)
      [\<lparr>iso3 = ''AAA'', alpha2 = None, name = ''A'', region = Some ''Americas'', subRegion = None, seg = Some AMERICAS\<rparr>,
       \<lparr>iso3 = ''BBB'', alpha2 = None, name = ''B'', region = Some ''Americas'', subRegion = None, seg = Some AMERICAS\<rparr>]
      AMERICAS) ''AAA'' = Some (Fin (1 / 10 ^ 9))
   \<and> map (\<lambda>d. (d_iso3 d, d_revenueMillions d)) (countryDetails (exposure
      (reduce_feeds (\<lambda>s. NaN)
        (Some [\<lparr>countryiso3code = Some ''BBB'', wb_value = Some (Fin 2000), wb_date = DateNum (Fin 2023)\<rparr>])
        (Some [\<lparr>countryiso3code = Some ''BBB'', wb_value = Some NaN, wb_date = DateNum (Fin 2023)\<rparr>])
        None None None None)
      [\<lparr>iso3 = ''AAA'', alpha2 = None, name = ''A'', region = Some ''Americas'', subRegion = None, seg = Some AMERICAS\<rparr>,
       \<lparr>iso3 = ''BBB'', alpha2 = None, name = ''B'', region = Some ''Americas'', subRegion = None, seg = Some AMERICAS\<rparr>]))
     = [(''AAA'', Fin 0), (''BBB'', Fin 0)]"
  by (simp add: eval_defs)

text \<open>
  C7.  The claim: of two countries of one segment that differ only in that one is in
  the near-zero set, the near-zero one has 0.01 times the score of the other and a
  strictly smaller revenue.  The program on three countries of EMEA: \<^verbatim>\<open>RUS\<close>, in the
  near-zero set, and \<^verbatim>\<open>XXX\<close>, both with GDP 1000 and no other indicator, and a third with
  GDP 500 and a market-capitalisation value \<^verbatim>\<open>NaN\<close>.  The score of \<^verbatim>\<open>RUS\<close> is 0.01 times
  that of \<^verbatim>\<open>XXX\<close>, and both revenues are 0: neither is smaller.
\<close>

theorem near_zero_country_revenue_not_smaller:
  "map_of (scores_of
      (reduce_feeds (\<lambda>s. NaN)
        (Some [\<lparr>countryiso3code = Some ''RUS'', wb_value = Some (Fin 1000), wb_date = DateNum (Fin 2023)\<rparr>,
               \<lparr>countryiso3code = Some ''XXX'', wb_value = Some (Fin 1000), wb_date = DateNum (Fin 2023)\<rparr>,
               \<lparr>countryiso3code = Some ''YYY'', wb_value = Some (Fin 500), wb_date = DateNum (Fin 2023)\<rparr>])
        (Some [\<lparr>countryiso3code = Some ''YYY'', wb_value = Some NaN, wb_date = DateNum (Fin 2023)\<rparr>])
        None None None None)
      [\<lparr>iso3 = ''RUS'', alpha2 = None, name = ''R'', region = Some ''Europe'', subRegion = None, seg = Some EMEA\<rparr>,
       \<lparr>iso3 = ''XXX'', alpha2 = None, name = ''X'', region = Some ''Europe'', subRegion = None, seg = Some EMEA\<rparr>,
       \<lparr>iso3 = ''YYY'', alpha2 = None, name = ''Y'', region = Some ''Europe'', subRegion = None, seg = Some EMEA\<rparr>]
      EMEA) ''RUS''
     = Some (Fin (1000 powr 0.7 * (1 + 30 / 100) powr 0.9 * (1 + 50 / 100) powr 0.6
                   * (1 + 8000 / 50000) powr 0.35 * (0.2 + 55 / 100) powr 0.25 * 0.01))
   \<and> map_of (scores_of
      (reduce_feeds (\<lambda>s. NaN)
        (Some [\<lparr>countryiso3code = Some ''RUS'', wb_value = Some (Fin 1000), wb_date = DateNum (Fin 2023)\<rparr>,
               \<lparr>countryiso3code = Some ''XXX'', wb_value = Some (Fin 1000), wb_date = DateNum (Fin 2023)\<rparr>,
               \<lparr>countryiso3code = Some ''YYY'', wb_value = Some (Fin 500), wb_date = DateNum (Fin 2023)\<rparr>])
        (Some [\<lparr>countryiso3code = Some ''YYY'', wb_value = Some NaN, wb_date = DateNum (Fin 2023)\<rparr>])
        None None None None)
      [\<lparr>iso3 = ''RUS'', alpha2 = None, name = ''R'', region = Some ''Europe'', subRegion = None, seg = Some EMEA\<rparr>,
       \<lparr>iso3 = ''XXX'', alpha2 = None, name = ''X'', region = Some ''Europe'', subRegion = None, seg = Some EMEA\<rparr>,
       \<lparr>iso3 = ''YYY'', alpha2 = None, name = ''Y'', region = Some ''Europe'', subRegion = None, seg = Some EMEA\<rparr>]
      EMEA) ''XXX''
     = Some (Fin (1000 powr 0.7 * (1 + 30 / 100) powr 0.9 * (1 + 50 / 100) powr 0.6
                   * (1 + 8000 / 50000) powr 0.35 * (0.2 + 55 / 100) powr 0.25))
   \<and> map (\<lambda>d. (d_iso3 d, d_revenueMillions d)) (countryDetails (exposure
      (reduce_feeds (\<lambda>s. NaN)
        (Some [\<lparr>countryiso3code = Some ''RUS'', wb_value = Some (Fin 1000), wb_date = DateNum (Fin 2023)\<rparr>,
               \<lparr>countryiso3code = Some ''XXX'', wb_value = Some (Fin 1000), wb_date = DateNum (Fin 2023)\<rparr>,
               \<lparr>countryiso3code = Some ''YYY'', wb_value = Some (Fin 500), wb_date = DateNum (Fin 2023)\<rparr>])
        (Some [\<lparr>countryiso3code = Some ''YYY'', wb_value = Some NaN, wb_date = DateNum (Fin 2023)\<rparr>])
        None None None None)
      [\<lparr>iso3 = ''RUS'', alpha2 = None, name = ''R'', region = Some ''Europe'', subRegion = None, seg = Some EMEA\<rparr>,
       \<lparr>iso3 = ''XXX'', alpha2 = None, name = ''X'', region = Some ''Europe'', subRegion = None, seg = Some EMEA\<rparr>,
       \<lparr>iso3 = ''YYY'', alpha2 = None, name = ''Y'', region = Some ''Europe'', subRegion = None, seg = Some EMEA\<rparr>]))
     = [(''RUS'', Fin 0), (''XXX'', Fin 0), (''YYY'', Fin 0)]"
  by (simp add: eval_defs)

section \<open>Properties of the output table\<close>

lemma set_update_subset: "set (AList.update k v al) \<subseteq> insert (k, v) (set al)"
  by (induction al) auto

lemma keyed_update: "keyed m \<Longrightarrow> d_iso3 d = k \<Longrightarrow> keyed (AList.update k d m)"
  using set_update_subset[of k d m] by (auto simp: keyed_def)

lemma pass1_keys:
  "fst ` set (details_pass1 f cm t rows m) = fst ` set m \<union> row_iso3 ` set rows"
proof (induction rows arbitrary: m)
  case Nil
  then show ?case by simp
next
  case (Cons r rows)
  have "fst ` set (details_pass1 f cm t (r # rows) m)
      = fst ` set (AList.update (row_iso3 r) (detail_of_row f cm t r) m) \<union> row_iso3 ` set rows"
    using Cons.IH by simp
  also have "\<dots> = ({row_iso3 r} \<union> fst ` set m) \<union> row_iso3 ` set rows"
    by (simp only: dom_update)
  finally show ?case by auto
qed

lemma pass1_distinct:
  "distinct (map fst m) \<Longrightarrow> distinct (map fst (details_pass1 f cm t rows m))"
  by (induction rows arbitrary: m) (simp_all add: distinct_update)

lemma pass1_keyed:
  "keyed m \<Longrightarrow> keyed (details_pass1 f cm t rows m)"
  by (induction rows arbitrary: m) (simp_all add: keyed_update detail_of_row_def)

lemma map_of_None_iff: "map_of m k = None \<longleftrightarrow> k \<notin> fst ` set m"
  by (simp add: map_of_eq_None_iff)

lemma pass2_keys:
  "fst ` set (details_pass2 f cs m) = fst ` set m \<union> iso3 ` set cs"
proof (induction cs arbitrary: m)
  case Nil
  then show ?case by simp
next
  case (Cons c cs)
  show ?case
  proof (cases "map_of m (iso3 c) \<noteq> None")
    case True
    then have "iso3 c \<in> fst ` set m" by (simp add: map_of_None_iff)
    moreover have "fst ` set (details_pass2 f (c # cs) m) = fst ` set m \<union> iso3 ` set cs"
      using True Cons.IH by simp
    ultimately show ?thesis by auto
  next
    case False
    have "fst ` set (details_pass2 f (c # cs) m)
        = fst ` set (AList.update (iso3 c) (zero_detail f c) m) \<union> iso3 ` set cs"
      using False Cons.IH by simp
    also have "\<dots> = ({iso3 c} \<union> fst ` set m) \<union> iso3 ` set cs"
      by (simp only: dom_update)
    finally show ?thesis by auto
  qed
qed

lemma pass2_distinct:
  "distinct (map fst m) \<Longrightarrow> distinct (map fst (details_pass2 f cs m))"
  by (induction cs arbitrary: m) (simp_all add: distinct_update)

lemma pass2_keyed:
  "keyed m \<Longrightarrow> keyed (details_pass2 f cs m)"
  by (induction cs arbitrary: m) (simp_all add: keyed_update zero_detail_def)

lemma pass2_keeps:
  "map_of m k = Some d \<Longrightarrow> map_of (details_pass2 f cs m) k = Some d"
proof (induction cs arbitrary: m)
  case Nil
  then show ?case by simp
next
  case (Cons a cs)
  show ?case
  proof (cases "map_of m (iso3 a) \<noteq> None")
    case True
    then show ?thesis using Cons by simp
  next
    case False
    then have "iso3 a \<noteq> k" using Cons.prems by auto
    then have "map_of (AList.update (iso3 a) (zero_detail f a) m) k = Some d"
      using Cons.prems by (simp add: update_conv)
    from Cons.IH[OF this] show ?thesis using False by simp
  qed
qed

lemma pass2_fills:
  "c \<in> set cs \<Longrightarrow> distinct (map iso3 cs) \<Longrightarrow> map_of m (iso3 c) = None \<Longrightarrow>
   map_of (details_pass2 f cs m) (iso3 c) = Some (zero_detail f c)"
proof (induction cs arbitrary: m)
  case Nil
  then show ?case by simp
next
  case (Cons d ds)
  show ?case
  proof (cases "c = d")
    case True
    have "map_of (AList.update (iso3 c) (zero_detail f c) m) (iso3 c) = Some (zero_detail f c)"
      by (simp add: update_conv)
    then show ?thesis using True Cons.prems(3) pass2_keeps by simp
  next
    case False
    then have c: "c \<in> set ds" and ne: "iso3 d \<noteq> iso3 c" using Cons.prems by auto
    have d: "distinct (map iso3 ds)" using Cons.prems by simp
    show ?thesis
    proof (cases "map_of m (iso3 d) \<noteq> None")
      case True
      then show ?thesis using Cons.IH[OF c d Cons.prems(3)] by simp
    next
      case False
      have "map_of (AList.update (iso3 d) (zero_detail f d) m) (iso3 c) = None"
        using ne Cons.prems(3) by (simp add: update_conv)
      from Cons.IH[OF c d this] show ?thesis using False by simp
    qed
  qed
qed

lemma segment_cases: "seg c \<noteq> None \<longleftrightarrow> seg c = Some AMERICAS \<or> seg c = Some EMEA \<or> seg c = Some APAC"
proof (cases "seg c")
  case None
  then show ?thesis by simp
next
  case (Some s)
  then show ?thesis by (cases s) simp_all
qed

lemma segment_rows_keys:
  "map row_iso3 (segment_rows sc cs s) = map iso3 (filter (\<lambda>x. seg x = Some s) cs)"
  by (simp add: segment_rows_def allocation_row_def Let_def comp_def)

lemma allocations_codes:
  "map row_iso3 (allocations_of sc cs) =
     map iso3 (filter (\<lambda>x. seg x = Some AMERICAS) cs) @
     map iso3 (filter (\<lambda>x. seg x = Some EMEA) cs) @
     map iso3 (filter (\<lambda>x. seg x = Some APAC) cs)"
  by (simp add: allocations_of_def segment_keys_def segment_rows_keys)

lemma allocations_keys:
  "row_iso3 ` set (allocations_of sc cs) = iso3 ` {c \<in> set cs. seg c \<noteq> None}"
proof -
  have "row_iso3 ` set (allocations_of sc cs) = set (map row_iso3 (allocations_of sc cs))"
    by simp
  also have "\<dots> = iso3 ` ({c \<in> set cs. seg c = Some AMERICAS} \<union> {c \<in> set cs. seg c = Some EMEA}
      \<union> {c \<in> set cs. seg c = Some APAC})"
    unfolding allocations_codes by (simp add: image_Un Un_assoc)
  also have "{c \<in> set cs. seg c = Some AMERICAS} \<union> {c \<in> set cs. seg c = Some EMEA}
      \<union> {c \<in> set cs. seg c = Some APAC} = {c \<in> set cs. seg c \<noteq> None}"
    unfolding segment_cases by blast
  finally show ?thesis .
qed

lemma details_facts:
  fixes f cs
  defines "m \<equiv> details_pass2 f cs
     (details_pass1 f (countryMap_of cs []) (total_revenue (allocations_of (scores_of f cs) cs))
        (allocations_of (scores_of f cs) cs) [])"
  shows "countryDetails (exposure f cs) = map snd m"
    and "distinct (map fst m)" and "keyed m" and "fst ` set m = iso3 ` set cs"
proof -
  show "countryDetails (exposure f cs) = map snd m"
    by (simp add: exposure_def m_def Let_def)
  show "distinct (map fst m)"
    unfolding m_def by (intro pass2_distinct pass1_distinct) simp
  show "keyed m"
    unfolding m_def by (intro pass2_keyed pass1_keyed) (simp add: keyed_def)
  have "fst ` set m = iso3 ` {c \<in> set cs. seg c \<noteq> None} \<union> iso3 ` set cs"
    unfolding m_def by (simp add: pass2_keys pass1_keys allocations_keys)
  moreover have "iso3 ` {c \<in> set cs. seg c \<noteq> None} \<subseteq> iso3 ` set cs"
    by (rule image_mono) simp
  ultimately show "fst ` set m = iso3 ` set cs"
    by (simp add: Un_absorb1)
qed

lemma keyed_map: "keyed m \<Longrightarrow> map d_iso3 (map snd m) = map fst m"
  by (induction m) (auto simp: keyed_def)

lemma details_codes:
  "distinct (map d_iso3 (countryDetails (exposure f cs)))"
  "set (map d_iso3 (countryDetails (exposure f cs))) = iso3 ` set cs"
proof -
  have e: "map d_iso3 (countryDetails (exposure f cs)) = map fst (details_pass2 f cs
     (details_pass1 f (countryMap_of cs []) (total_revenue (allocations_of (scores_of f cs) cs))
        (allocations_of (scores_of f cs) cs) []))"
    by (simp only: details_facts(1) keyed_map[OF details_facts(3)])
  show "distinct (map d_iso3 (countryDetails (exposure f cs)))"
    unfolding e by (rule details_facts(2))
  show "set (map d_iso3 (countryDetails (exposure f cs))) = iso3 ` set cs"
    unfolding e using details_facts(4)[of f cs] by simp
qed

lemma count_one:
  "distinct (map g xs) \<Longrightarrow> k \<in> set (map g xs) \<Longrightarrow> length (filter (\<lambda>x. g x = k) xs) = 1"
proof (induction xs)
  case Nil
  then show ?case by simp
next
  case (Cons x xs)
  show ?case
  proof (cases "g x = k")
    case True
    have "g x \<notin> g ` set xs" using Cons.prems(1) by simp
    then have "\<forall>y \<in> set xs. g y \<noteq> k" using True by (metis imageI)
    then have "filter (\<lambda>x. g x = k) xs = []" by (simp add: filter_empty_conv)
    then show ?thesis using True by simp
  next
    case False
    then show ?thesis using Cons by auto
  qed
qed

lemma null_segment_entry:
  assumes "c \<in> set cs" "seg c = None" "distinct (map iso3 cs)"
    and "d \<in> set (countryDetails (exposure f cs))" "d_iso3 d = iso3 c"
  shows "d = zero_detail f c"
proof -
  let ?m1 = "details_pass1 f (countryMap_of cs []) (total_revenue (allocations_of (scores_of f cs) cs))
        (allocations_of (scores_of f cs) cs) []"
  let ?m = "details_pass2 f cs ?m1"
  have inj: "inj_on iso3 (set cs)" using assms(3) by (simp add: distinct_map)
  have "iso3 c \<notin> fst ` set ?m1"
  proof
    assume "iso3 c \<in> fst ` set ?m1"
    then have "iso3 c \<in> iso3 ` {c \<in> set cs. seg c \<noteq> None}"
      by (simp add: pass1_keys allocations_keys)
    then obtain c' where "c' \<in> {c \<in> set cs. seg c \<noteq> None}" "iso3 c = iso3 c'"
      by (rule imageE)
    then have c': "c' \<in> set cs" "seg c' \<noteq> None" "iso3 c' = iso3 c"
      by simp_all
    then have "c' = c" using inj assms(1) by (meson inj_onD)
    then show False using c'(2) assms(2) by simp
  qed
  then have "map_of ?m1 (iso3 c) = None" by (simp add: map_of_None_iff)
  then have z: "map_of ?m (iso3 c) = Some (zero_detail f c)"
    using pass2_fills[OF assms(1,3)] by blast
  have "d \<in> snd ` set ?m"
    using assms(4) by (simp only: details_facts(1) set_map)
  then obtain kd0 where kd0: "kd0 \<in> set ?m" "d = snd kd0"
    by (rule imageE)
  define k where "k = fst kd0"
  have kd: "(k, d) \<in> set ?m"
    using kd0 by (simp add: k_def)
  have "keyed ?m" by (rule details_facts(3))
  then have "d_iso3 (snd (k, d)) = fst (k, d)" using kd unfolding keyed_def by (rule bspec)
  then have "k = iso3 c" using assms(5) by simp
  moreover have "distinct (map fst ?m)" by (rule details_facts(2))
  ultimately have "map_of ?m (iso3 c) = Some d" using kd by simp
  then show ?thesis using z by simp
qed


lemma exposure_every_country_once:
  assumes "distinct (map iso3 cs)"
  shows "\<forall>c \<in> set cs. length (filter (\<lambda>d. d_iso3 d = iso3 c) (countryDetails (exposure f cs))) = 1"
    and "\<forall>c \<in> set cs. seg c = None \<longrightarrow>
           (\<forall>d \<in> set (countryDetails (exposure f cs)). d_iso3 d = iso3 c \<longrightarrow>
              d_revenueMillions d = Fin 0 \<and> d_share d = Fin 0)"
    and "length (countryDetails (exposure f cs)) = length cs"
proof -
  show "\<forall>c \<in> set cs. length (filter (\<lambda>d. d_iso3 d = iso3 c) (countryDetails (exposure f cs))) = 1"
  proof
    fix c assume "c \<in> set cs"
    then have "iso3 c \<in> iso3 ` set cs" by (rule imageI)
    then have "iso3 c \<in> set (map d_iso3 (countryDetails (exposure f cs)))"
      by (simp only: details_codes(2))
    then show "length (filter (\<lambda>d. d_iso3 d = iso3 c) (countryDetails (exposure f cs))) = 1"
      by (rule count_one[OF details_codes(1)])
  qed
  show "\<forall>c \<in> set cs. seg c = None \<longrightarrow>
           (\<forall>d \<in> set (countryDetails (exposure f cs)). d_iso3 d = iso3 c \<longrightarrow>
              d_revenueMillions d = Fin 0 \<and> d_share d = Fin 0)"
  proof (intro ballI impI)
    fix c d assume "c \<in> set cs" "seg c = None" "d \<in> set (countryDetails (exposure f cs))"
      "d_iso3 d = iso3 c"
    then have "d = zero_detail f c" using assms by (intro null_segment_entry)
    then show "d_revenueMillions d = Fin 0 \<and> d_share d = Fin 0"
      by (simp add: zero_detail_def)
  qed
  have "length (countryDetails (exposure f cs)) = length (map d_iso3 (countryDetails (exposure f cs)))"
    by simp
  also have "\<dots> = card (set (map d_iso3 (countryDetails (exposure f cs))))"
    by (rule distinct_card[OF details_codes(1), symmetric])
  also have "\<dots> = card (iso3 ` set cs)"
    by (simp only: details_codes(2))
  also have "\<dots> = card (set (map iso3 cs))"
    by simp
  also have "\<dots> = length (map iso3 cs)"
    by (rule distinct_card[OF assms])
  finally show "length (countryDetails (exposure f cs)) = length cs" by simp
qed

lemma parse_row_nonempty:
  "parse_row trim upper header line = Some c \<Longrightarrow> iso3 c \<noteq> [] \<and> name c \<noteq> []"
  unfolding parse_row_def Let_def
  by (simp split: option.splits if_splits prod.splits) auto

lemma map_filter_mem:
  "y \<in> set (List.map_filter g xs) \<Longrightarrow> \<exists>x \<in> set xs. g x = Some y"
  by (induction xs) (auto split: option.splits)

lemma parse_countries_nonempty:
  assumes "c \<in> set (parse_countries trim upper isoCsv)"
  shows "iso3 c \<noteq> [] \<and> name c \<noteq> []"
proof (cases "split_lines (trim isoCsv)")
  case Nil
  then show ?thesis using assms by (simp add: parse_countries_def)
next
  case (Cons l0 ls)
  then have "c \<in> set (List.map_filter (parse_row trim upper (splitCsvLine l0)) ls)"
    using assms by (simp add: parse_countries_def)
  then obtain line where "parse_row trim upper (splitCsvLine l0) line = Some c"
    using map_filter_mem by fastforce
  then show ?thesis by (rule parse_row_nonempty)
qed


text \<open>
  C2.  Assume that the codes of the country records parsed from the taxonomy are
  pairwise distinct.  Then for every record (a record has a non-empty code and a
  non-empty name) the final table \<^verbatim>\<open>countryDetails\<close> has exactly one entry with the code of
  the record; for a record without segment this entry has revenue 0 and share 0; the
  codes of the table are pairwise distinct and are exactly the codes of the records, and
  the table has as many entries as there are records.
\<close>

theorem every_country_appears_once:
  assumes "distinct (map iso3 (parse_countries trim upper isoCsv))"
  shows
    "(\<forall>c \<in> set (parse_countries trim upper isoCsv).
        iso3 c \<noteq> [] \<and> name c \<noteq> [] \<and>
        length (filter (\<lambda>d. d_iso3 d = iso3 c)
          (countryDetails (buildExposureData N trim upper isoCsv gdpJson mcapJson creditJson gdpPcJson netJson popJson))) = 1 \<and>
        (seg c = None \<longrightarrow>
          (\<forall>d \<in> set (countryDetails (buildExposureData N trim upper isoCsv gdpJson mcapJson creditJson gdpPcJson netJson popJson)).
             d_iso3 d = iso3 c \<longrightarrow> d_revenueMillions d = Fin 0 \<and> d_share d = Fin 0)))
     \<and> distinct (map d_iso3 (countryDetails (buildExposureData N trim upper isoCsv gdpJson mcapJson creditJson gdpPcJson netJson popJson)))
     \<and> set (map d_iso3 (countryDetails (buildExposureData N trim upper isoCsv gdpJson mcapJson creditJson gdpPcJson netJson popJson)))
         = iso3 ` set (parse_countries trim upper isoCsv)
     \<and> length (countryDetails (buildExposureData N trim upper isoCsv gdpJson mcapJson creditJson gdpPcJson netJson popJson))
         = length (parse_countries trim upper isoCsv)"
proof -
  let ?cs = "parse_countries trim upper isoCsv"
  let ?f = "reduce_feeds N gdpJson mcapJson creditJson gdpPcJson netJson popJson"
  have b: "buildExposureData N trim upper isoCsv gdpJson mcapJson creditJson gdpPcJson netJson popJson
      = exposure ?f ?cs"
    by (simp only: buildExposureData_def)
  note once = exposure_every_country_once[OF assms, of ?f]
  show ?thesis
    unfolding b
  proof (intro conjI ballI)
    fix c assume c: "c \<in> set ?cs"
    show "iso3 c \<noteq> []" "name c \<noteq> []"
      using parse_countries_nonempty[OF c] by simp_all
    show "length (filter (\<lambda>d. d_iso3 d = iso3 c) (countryDetails (exposure ?f ?cs))) = 1"
      using once(1) c by (rule bspec)
    show "seg c = None \<longrightarrow>
          (\<forall>d \<in> set (countryDetails (exposure ?f ?cs)).
             d_iso3 d = iso3 c \<longrightarrow> d_revenueMillions d = Fin 0 \<and> d_share d = Fin 0)"
      using once(2) c by (rule bspec)
  next
    show "distinct (map d_iso3 (countryDetails (exposure ?f ?cs)))"
      by (rule details_codes(1))
    show "set (map d_iso3 (countryDetails (exposure ?f ?cs))) = iso3 ` set ?cs"
      by (rule details_codes(2))
    show "length (countryDetails (exposure ?f ?cs)) = length ?cs"
      by (rule once(3))
  qed
qed

text \<open>A taxonomy of two rows: one country of the Americas, one without region.\<close>

lemma example_lines: "split_lines (''alpha-3,name,region,sub-region'' @ [CHR 0x0A] @ ''USA,United States,Americas,'' @ [CHR 0x0A] @ ''ATA,Antarctica,,'')
  = [''alpha-3,name,region,sub-region'', ''USA,United States,Americas,'', ''ATA,Antarctica,,'']"
  by simp

lemma example_header: "splitCsvLine ''alpha-3,name,region,sub-region'' = [''alpha-3'', ''name'', ''region'', ''sub-region'']"
  by (simp add: splitCsvLine_def)

lemma example_columns: "splitCsvLine ''USA,United States,Americas,'' = [''USA'', ''United States'', ''Americas'', []]"
  "splitCsvLine ''ATA,Antarctica,,'' = [''ATA'', ''Antarctica'', [], []]"
  by (simp_all add: splitCsvLine_def)

lemma example_row_usa: "parse_row (\<lambda>s. s) (\<lambda>s. s) [''alpha-3'', ''name'', ''region'', ''sub-region''] ''USA,United States,Americas,''
  = Some \<lparr>iso3 = ''USA'', alpha2 = None, name = ''United States'', region = Some ''Americas'',
        subRegion = Some [], seg = Some AMERICAS\<rparr>"
  by (simp add: parse_row_def example_columns col_def segmentOfCountry_def Let_def)

lemma example_row_ata: "parse_row (\<lambda>s. s) (\<lambda>s. s) [''alpha-3'', ''name'', ''region'', ''sub-region''] ''ATA,Antarctica,,''
  = Some \<lparr>iso3 = ''ATA'', alpha2 = None, name = ''Antarctica'', region = Some [],
        subRegion = Some [], seg = None\<rparr>"
  by (simp add: parse_row_def example_columns col_def segmentOfCountry_def Let_def)

lemma parse_example:
  "parse_countries (\<lambda>s. s) (\<lambda>s. s)
     (''alpha-3,name,region,sub-region'' @ [CHR 0x0A] @ ''USA,United States,Americas,'' @ [CHR 0x0A] @ ''ATA,Antarctica,,'')
   = [\<lparr>iso3 = ''USA'', alpha2 = None, name = ''United States'', region = Some ''Americas'',
        subRegion = Some [], seg = Some AMERICAS\<rparr>,
      \<lparr>iso3 = ''ATA'', alpha2 = None, name = ''Antarctica'', region = Some [],
        subRegion = Some [], seg = None\<rparr>]"
  unfolding parse_countries_def example_lines by (simp add: example_header example_row_usa example_row_ata)


theorem every_country_appears_once_witness:
  "parse_countries (\<lambda>s. s) (\<lambda>s. s)
     (''alpha-3,name,region,sub-region'' @ [CHR 0x0A] @ ''USA,United States,Americas,'' @ [CHR 0x0A] @ ''ATA,Antarctica,,'')
   = [\<lparr>iso3 = ''USA'', alpha2 = None, name = ''United States'', region = Some ''Americas'',
        subRegion = Some [], seg = Some AMERICAS\<rparr>,
      \<lparr>iso3 = ''ATA'', alpha2 = None, name = ''Antarctica'', region = Some [],
        subRegion = Some [], seg = None\<rparr>]
   \<and> length (filter (\<lambda>d. d_iso3 d = ''ATA'')
        (countryDetails (buildExposureData (\<lambda>s. NaN) (\<lambda>s. s) (\<lambda>s. s)
          (''alpha-3,name,region,sub-region'' @ [CHR 0x0A] @ ''USA,United States,Americas,'' @ [CHR 0x0A] @ ''ATA,Antarctica,,'')
          None None None None None None))) = 1
   \<and> length (filter (\<lambda>d. d_iso3 d = ''USA'')
        (countryDetails (buildExposureData (\<lambda>s. NaN) (\<lambda>s. s) (\<lambda>s. s)
          (''alpha-3,name,region,sub-region'' @ [CHR 0x0A] @ ''USA,United States,Americas,'' @ [CHR 0x0A] @ ''ATA,Antarctica,,'')
          None None None None None None))) = 1
   \<and> length (countryDetails (buildExposureData (\<lambda>s. NaN) (\<lambda>s. s) (\<lambda>s. s)
          (''alpha-3,name,region,sub-region'' @ [CHR 0x0A] @ ''USA,United States,Americas,'' @ [CHR 0x0A] @ ''ATA,Antarctica,,'')
          None None None None None None)) = 2"
proof -
  let ?csv = "''alpha-3,name,region,sub-region'' @ [CHR 0x0A] @ ''USA,United States,Americas,'' @ [CHR 0x0A] @ ''ATA,Antarctica,,''"
  have d: "distinct (map iso3 (parse_countries (\<lambda>s. s) (\<lambda>s. s) ?csv))"
    by (simp only: parse_example) simp
  from every_country_appears_once[OF d, of "\<lambda>s. NaN" None None None None None None]
  show ?thesis
    by (simp only: parse_example) simp
qed

section \<open>Properties of the allocation\<close>

lemma update_append_new:
  "k \<notin> fst ` set al \<Longrightarrow> AList.update k v al = al @ [(k, v)]"
  by (induction al) auto

lemma scores_loop_list:
  "distinct (map iso3 cs) \<Longrightarrow> \<forall>c \<in> set cs. iso3 c \<notin> fst ` set (sc s) \<Longrightarrow>
   scores_loop f M cs sc s =
     sc s @ map (\<lambda>c. (iso3 c, score_of f M s c)) (filter (\<lambda>c. seg c = Some s) cs)"
proof (induction cs arbitrary: sc)
  case Nil
  then show ?case by simp
next
  case (Cons d ds)
  have dd: "distinct (map iso3 ds)" and ni: "iso3 d \<notin> iso3 ` set ds"
    using Cons.prems(1) by simp_all
  have nd: "\<forall>c \<in> set ds. iso3 c \<noteq> iso3 d"
    using ni by (metis imageI)
  show ?case
  proof (cases "seg d")
    case None
    have "scores_loop f M ds sc s =
        sc s @ map (\<lambda>c. (iso3 c, score_of f M s c)) (filter (\<lambda>c. seg c = Some s) ds)"
      by (rule Cons.IH[OF dd]) (use Cons.prems(2) in simp)
    then show ?thesis using None by simp
  next
    case (Some t)
    let ?sc = "sc(t := AList.update (iso3 d) (score_of f M t d) (sc t))"
    have step: "scores_loop f M (d # ds) sc = scores_loop f M ds ?sc"
      using Some by simp
    show ?thesis
    proof (cases "t = s")
      case True
      have new: "?sc s = sc s @ [(iso3 d, score_of f M s d)]"
        using True Cons.prems(2) by (simp add: update_append_new)
      have k: "\<forall>c \<in> set ds. iso3 c \<notin> fst ` set (?sc s)"
        unfolding new using Cons.prems(2) nd by auto
      have "scores_loop f M (d # ds) sc s = scores_loop f M ds ?sc s"
        by (simp only: step)
      also have "\<dots> = ?sc s @ map (\<lambda>c. (iso3 c, score_of f M s c)) (filter (\<lambda>c. seg c = Some s) ds)"
        by (rule Cons.IH[of ?sc, OF dd k])
      also have "\<dots> = (sc s @ [(iso3 d, score_of f M s d)])
          @ map (\<lambda>c. (iso3 c, score_of f M s c)) (filter (\<lambda>c. seg c = Some s) ds)"
        by (simp only: new)
      also have "\<dots> = sc s @ map (\<lambda>c. (iso3 c, score_of f M s c)) (filter (\<lambda>c. seg c = Some s) (d # ds))"
        using True Some by simp
      finally show ?thesis .
    next
      case False
      have same: "?sc s = sc s" using False by simp
      have k: "\<forall>c \<in> set ds. iso3 c \<notin> fst ` set (?sc s)"
        unfolding same using Cons.prems(2) by simp
      have "scores_loop f M (d # ds) sc s = scores_loop f M ds ?sc s"
        by (simp only: step)
      also have "\<dots> = ?sc s @ map (\<lambda>c. (iso3 c, score_of f M s c)) (filter (\<lambda>c. seg c = Some s) ds)"
        by (rule Cons.IH[of ?sc, OF dd k])
      also have "\<dots> = sc s @ map (\<lambda>c. (iso3 c, score_of f M s c)) (filter (\<lambda>c. seg c = Some s) ds)"
        by (simp only: same)
      also have "\<dots> = sc s @ map (\<lambda>c. (iso3 c, score_of f M s c)) (filter (\<lambda>c. seg c = Some s) (d # ds))"
        using False Some by simp
      finally show ?thesis .
    qed
  qed
qed

lemma scores_of_list:
  "distinct (map iso3 cs) \<Longrightarrow>
   scores_of f cs s =
     map (\<lambda>c. (iso3 c, score_of f (segMedian_of f cs) s c)) (filter (\<lambda>c. seg c = Some s) cs)"
  using scores_loop_list[of cs "\<lambda>s. []" s f "segMedian_of f cs"] by (simp add: scores_of_def)

lemma median_or_fin: "\<exists>x. median_or arr d = Fin x"
proof -
  have "is_fin (median_or arr d)"
    by (simp add: median_or_def median_def Let_def)
  then show ?thesis by (simp add: is_fin_conv)
qed

lemma value_or_not_NaN:
  "get_value m k \<noteq> Some NaN \<Longrightarrow> d \<noteq> NaN \<Longrightarrow> value_or m k d \<noteq> NaN"
  by (auto simp: value_or_def split: option.splits)

lemma segMedian_not_NaN:
  "mcap (segMedian_of f cs s) \<noteq> NaN" "credit (segMedian_of f cs s) \<noteq> NaN"
  "gdppc (segMedian_of f cs s) \<noteq> NaN" "net (segMedian_of f cs s) \<noteq> NaN"
  using median_or_fin[of "mcap (segVals_of f cs s)" 30] median_or_fin[of "credit (segVals_of f cs s)" 50]
    median_or_fin[of "gdppc (segVals_of f cs s)" 8000] median_or_fin[of "net (segVals_of f cs s)" 55]
  by (auto simp: segMedian_of_def)

lemma hub_multiplier_pos: "0 < hub_multiplier k"
  by (simp add: hub_multiplier_def HUB_MULT_def)

lemma override_multiplier_pos: "0 < override_multiplier k"
  using hub_multiplier_pos[of k] by (simp add: override_multiplier_def)

lemma composite_score_pos:
  "0 < g \<Longrightarrow> 0 \<le> m \<Longrightarrow> 0 \<le> cr \<Longrightarrow> 0 \<le> w \<Longrightarrow> 0 \<le> n \<Longrightarrow> 0 < composite_score g m cr w n"
proof -
  assume a: "0 < g" "0 \<le> m" "0 \<le> cr" "0 \<le> w" "0 \<le> n"
  have "0 < 1 + m / 100" "0 < 1 + cr / 100" "0 < 1 + w / 50000" "0 < 0.2 + n / 100"
    using a by (simp_all add: add_pos_nonneg)
  then show ?thesis using a(1) by (simp add: composite_score_def)
qed

lemma score_of_pos:
  assumes "no_NaN_indicator f c"
  shows "\<exists>v. score_of f (segMedian_of f cs) s c = Fin v \<and> 0 < v"
proof (cases "\<exists>g. get_value (gdp f) (iso3 c) = Some (Fin g) \<and> 0 < g")
  case True
  then obtain g where g: "get_value (gdp f) (iso3 c) = Some (Fin g)" "0 < g" by blast
  let ?M = "segMedian_of f cs"
  have nn: "value_or (mcapPct f) (iso3 c) (mcap (?M s)) \<noteq> NaN"
    "value_or (creditPct f) (iso3 c) (credit (?M s)) \<noteq> NaN"
    "value_or (gdpPc f) (iso3 c) (gdppc (?M s)) \<noteq> NaN"
    "value_or (netPct f) (iso3 c) (net (?M s)) \<noteq> NaN"
    using assms segMedian_not_NaN[of f cs s] by (simp_all add: no_NaN_indicator_def value_or_not_NaN)
  obtain m where m: "clamp (value_or (mcapPct f) (iso3 c) (mcap (?M s))) (Fin 0) (Fin 400) = Fin m" "0 \<le> m"
    using clamp_not_NaN[OF nn(1), of 0 400] by auto
  obtain cr where cr: "clamp (value_or (creditPct f) (iso3 c) (credit (?M s))) (Fin 0) (Fin 300) = Fin cr" "0 \<le> cr"
    using clamp_not_NaN[OF nn(2), of 0 300] by auto
  obtain w where w: "clamp (value_or (gdpPc f) (iso3 c) (gdppc (?M s))) (Fin 0) (Fin 80000) = Fin w" "0 \<le> w"
    using clamp_not_NaN[OF nn(3), of 0 80000] by auto
  obtain n where n: "clamp (value_or (netPct f) (iso3 c) (net (?M s))) (Fin 0) (Fin 100) = Fin n" "0 \<le> n"
    using clamp_not_NaN[OF nn(4), of 0 100] by auto
  have "score_of f ?M s c = Fin (composite_score g m cr w n * override_multiplier (iso3 c))"
    using g m cr w n by (intro score_of_usable)
  moreover have "0 < composite_score g m cr w n * override_multiplier (iso3 c)"
    using composite_score_pos[OF g(2) m(2) cr(2) w(2) n(2)] override_multiplier_pos[of "iso3 c"]
    by (rule mult_pos_pos)
  ultimately show ?thesis by blast
next
  case False
  have "\<not> Number_isFinite (get_value (gdp f) (iso3 c)) \<or> js_le (the (get_value (gdp f) (iso3 c))) (Fin 0)"
  proof (cases "get_value (gdp f) (iso3 c)")
    case None
    then show ?thesis by simp
  next
    case (Some x)
    then show ?thesis using False by (cases x) (auto simp: not_less)
  qed
  then have "score_of f (segMedian_of f cs) s c = Fin (1 / 10 ^ 9)"
    by (simp add: score_of_def Let_def)
  moreover have "(0::real) < 1 / 10 ^ 9" by simp
  ultimately show ?thesis by (intro exI[of _ "1 / 10 ^ 9"] conjI)
qed


lemma sum_values_Fin: "sum_values (map Fin xs) (Fin a) = Fin (a + sum_list xs)"
  by (induction xs arbitrary: a) (simp_all add: add.assoc)

lemma sum_list_pos_real:
  fixes xs :: "real list"
  shows "xs \<noteq> [] \<Longrightarrow> \<forall>x \<in> set xs. 0 < x \<Longrightarrow> 0 < sum_list xs"
proof (induction xs)
  case Nil
  then show ?case by simp
next
  case (Cons x xs)
  show ?case
  proof (cases "xs = []")
    case True
    then show ?thesis using Cons.prems by simp
  next
    case False
    then have "0 < sum_list xs" using Cons by simp
    then show ?thesis using Cons.prems by (simp add: add_pos_pos)
  qed
qed

lemma segment_revenues:
  assumes d: "distinct (map iso3 cs)"
    and nn: "\<forall>c \<in> set cs. seg c = Some s \<longrightarrow> no_NaN_indicator f c"
    and ne: "\<exists>c \<in> set cs. seg c = Some s"
  shows "\<exists>xs. map row_revenueMillions (segment_rows (scores_of f cs) cs s) = map Fin xs \<and>
               sum_list xs = SEGMENT_REVENUE_USD_M s"
proof -
  let ?M = "segMedian_of f cs"
  let ?Cs = "filter (\<lambda>c. seg c = Some s) cs"
  let ?w = "\<lambda>c. fin_val (score_of f ?M s c)"
  let ?T = "SEGMENT_REVENUE_USD_M s"
  have sc: "score_of f ?M s c = Fin (?w c) \<and> 0 < ?w c" if "c \<in> set ?Cs" for c
  proof -
    have "no_NaN_indicator f c" using that nn by simp
    from score_of_pos[OF this, of cs s] obtain v
      where "score_of f ?M s c = Fin v" "0 < v" by blast
    then show ?thesis by (simp add: fin_val_def)
  qed
  have vals: "map snd (scores_of f cs s) = map Fin (map ?w ?Cs)"
    unfolding scores_of_list[OF d] using sc by (simp add: comp_def)
  let ?W = "sum_list (map ?w ?Cs)"
  have sum: "sum_values (map snd (scores_of f cs s)) (Fin 0) = Fin ?W"
    unfolding vals sum_values_Fin by simp
  have "?Cs \<noteq> []" using ne by (simp add: filter_empty_conv)
  then have "map ?w ?Cs \<noteq> []" by simp
  moreover have "\<forall>x \<in> set (map ?w ?Cs). 0 < x" using sc by auto
  ultimately have W: "0 < ?W" by (rule sum_list_pos_real)
  have row: "row_revenueMillions (allocation_row (scores_of f cs s) (Fin ?W) s c) = Fin (?T * (?w c / ?W))"
    if c: "c \<in> set ?Cs" for c
  proof -
    have "c \<in> set cs" "seg c = Some s" using c by simp_all
    then have "map_of (scores_of f cs s) (iso3 c) = Some (score_of f ?M s c)"
      by (rule scores_of_lookup)
    then have "map_of (scores_of f cs s) (iso3 c) = Some (Fin (?w c))"
      using sc[OF c] by simp
    then show ?thesis using W by (simp add: allocation_row_def Let_def)
  qed
  have "map row_revenueMillions (segment_rows (scores_of f cs) cs s)
      = map (\<lambda>c. row_revenueMillions (allocation_row (scores_of f cs s) (Fin ?W) s c)) ?Cs"
    by (simp add: segment_rows_def sum comp_def)
  also have "\<dots> = map (\<lambda>c. Fin (?T * (?w c / ?W))) ?Cs"
    by (rule map_cong[OF refl]) (rule row)
  also have "\<dots> = map Fin (map (\<lambda>c. ?T * (?w c / ?W)) ?Cs)"
    by (simp add: comp_def)
  finally have a: "map row_revenueMillions (segment_rows (scores_of f cs) cs s)
      = map Fin (map (\<lambda>c. ?T * (?w c / ?W)) ?Cs)" .
  have "sum_list (map (\<lambda>c. ?T * (?w c / ?W)) ?Cs) = ?T * (?W / ?W)"
  proof -
    have "sum_list (map (\<lambda>c. ?T * (?w c / ?W)) ?Cs) = sum_list (map (\<lambda>c. (?T / ?W) * ?w c) ?Cs)"
      by (simp add: mult.commute)
    also have "\<dots> = (?T / ?W) * sum_list (map ?w ?Cs)"
      by (rule sum_list_const_mult)
    finally show ?thesis by simp
  qed
  also have "\<dots> = ?T" using W by simp
  finally show ?thesis using a by blast
qed


lemma segment_name_inj: "segment_name t = segment_name s \<longleftrightarrow> t = s"
  by (cases t; cases s) (simp_all add: segment_name_def)

lemma segment_rows_segment:
  "r \<in> set (segment_rows sc cs t) \<Longrightarrow> row_segment r = segment_name t"
  by (auto simp: segment_rows_def allocation_row_def Let_def)

lemma filter_segment_rows:
  "filter (\<lambda>r. row_segment r = segment_name s) (segment_rows sc cs t)
     = (if t = s then segment_rows sc cs t else [])"
proof (cases "t = s")
  case True
  then show ?thesis using segment_rows_segment[of _ sc cs t] by (simp add: filter_id_conv)
next
  case False
  then show ?thesis using segment_rows_segment[of _ sc cs t]
    by (simp add: filter_empty_conv segment_name_inj)
qed

lemma rows_of_segment:
  "filter (\<lambda>r. row_segment r = segment_name s) (allocations_of sc cs) = segment_rows sc cs s"
  by (cases s) (simp_all add: allocations_of_def segment_keys_def filter_segment_rows)

lemma all_segments: "(\<forall>t::segment. P t) \<longleftrightarrow> P AMERICAS \<and> P EMEA \<and> P APAC"
  by (metis segment.exhaust)

text \<open>
  C1, as amended.  Assume that the codes of the country list are pairwise distinct.
  For every segment that has at least one country and none of whose countries has a
  stored indicator value \<^verbatim>\<open>NaN\<close>, the revenues of the allocation rows of the segment sum to
  the anchor of the segment, exactly, the finite numbers being reals.  When this holds of
  all three segments, the total revenue is the sum of the three anchors.
\<close>

theorem segment_revenue_sums_to_anchor:
  assumes "distinct (map iso3 cs)"
  shows
    "((\<exists>c \<in> set cs. seg c = Some s) \<and> (\<forall>c \<in> set cs. seg c = Some s \<longrightarrow> no_NaN_indicator f c) \<longrightarrow>
        sum_values (map row_revenueMillions
          (filter (\<lambda>r. row_segment r = segment_name s) (allocations_of (scores_of f cs) cs))) (Fin 0)
        = Fin (SEGMENT_REVENUE_USD_M s))
     \<and> ((\<forall>t. \<exists>c \<in> set cs. seg c = Some t) \<and> (\<forall>c \<in> set cs. seg c \<noteq> None \<longrightarrow> no_NaN_indicator f c) \<longrightarrow>
        totalRevenueMillions (exposure f cs)
        = Fin (SEGMENT_REVENUE_USD_M AMERICAS + SEGMENT_REVENUE_USD_M EMEA + SEGMENT_REVENUE_USD_M APAC))"
proof (intro conjI impI)
  assume h: "(\<exists>c \<in> set cs. seg c = Some s) \<and> (\<forall>c \<in> set cs. seg c = Some s \<longrightarrow> no_NaN_indicator f c)"
  from segment_revenues[OF assms, of s f] h obtain xs
    where "map row_revenueMillions (segment_rows (scores_of f cs) cs s) = map Fin xs"
      and "sum_list xs = SEGMENT_REVENUE_USD_M s" by blast
  then show "sum_values (map row_revenueMillions
          (filter (\<lambda>r. row_segment r = segment_name s) (allocations_of (scores_of f cs) cs))) (Fin 0)
        = Fin (SEGMENT_REVENUE_USD_M s)"
    unfolding rows_of_segment by (simp add: sum_values_Fin)
next
  assume h: "(\<forall>t. \<exists>c \<in> set cs. seg c = Some t) \<and> (\<forall>c \<in> set cs. seg c \<noteq> None \<longrightarrow> no_NaN_indicator f c)"
  have seg: "\<exists>xs. map row_revenueMillions (segment_rows (scores_of f cs) cs t) = map Fin xs \<and>
               sum_list xs = SEGMENT_REVENUE_USD_M t" for t
    using h by (intro segment_revenues[OF assms]) auto
  obtain xa where xa: "map row_revenueMillions (segment_rows (scores_of f cs) cs AMERICAS) = map Fin xa"
      "sum_list xa = SEGMENT_REVENUE_USD_M AMERICAS" using seg[of AMERICAS] by blast
  obtain xe where xe: "map row_revenueMillions (segment_rows (scores_of f cs) cs EMEA) = map Fin xe"
      "sum_list xe = SEGMENT_REVENUE_USD_M EMEA" using seg[of EMEA] by blast
  obtain xp where xp: "map row_revenueMillions (segment_rows (scores_of f cs) cs APAC) = map Fin xp"
      "sum_list xp = SEGMENT_REVENUE_USD_M APAC" using seg[of APAC] by blast
  have "map row_revenueMillions (allocations_of (scores_of f cs) cs) = map Fin (xa @ xe @ xp)"
    by (simp add: allocations_of_def segment_keys_def xa(1) xe(1) xp(1))
  then have "total_revenue (allocations_of (scores_of f cs) cs) = Fin (0 + sum_list (xa @ xe @ xp))"
    unfolding total_revenue_def by (simp only: sum_values_Fin)
  then show "totalRevenueMillions (exposure f cs)
        = Fin (SEGMENT_REVENUE_USD_M AMERICAS + SEGMENT_REVENUE_USD_M EMEA + SEGMENT_REVENUE_USD_M APAC)"
    using xa(2) xe(2) xp(2) by (simp add: exposure_def Let_def)
qed

theorem segment_revenue_sums_to_anchor_witness:
  "sum_values (map row_revenueMillions
      (filter (\<lambda>r. row_segment r = ''AMERICAS'')
        (allocations_of
          (scores_of
            (reduce_feeds (\<lambda>s. NaN)
              (Some [\<lparr>countryiso3code = Some ''USA'', wb_value = Some (Fin 1000), wb_date = DateNum (Fin 2023)\<rparr>,
                     \<lparr>countryiso3code = Some ''FRA'', wb_value = Some (Fin 500), wb_date = DateNum (Fin 2023)\<rparr>])
              (Some [\<lparr>countryiso3code = Some ''USA'', wb_value = Some (Fin 150), wb_date = DateNum (Fin 2022)\<rparr>])
              None None None None)
            [\<lparr>iso3 = ''USA'', alpha2 = None, name = ''U'', region = Some ''Americas'', subRegion = None, seg = Some AMERICAS\<rparr>,
             \<lparr>iso3 = ''CAN'', alpha2 = None, name = ''C'', region = Some ''Americas'', subRegion = None, seg = Some AMERICAS\<rparr>,
             \<lparr>iso3 = ''FRA'', alpha2 = None, name = ''F'', region = Some ''Europe'', subRegion = None, seg = Some EMEA\<rparr>,
             \<lparr>iso3 = ''JPN'', alpha2 = None, name = ''J'', region = Some ''Asia'', subRegion = None, seg = Some APAC\<rparr>])
          [\<lparr>iso3 = ''USA'', alpha2 = None, name = ''U'', region = Some ''Americas'', subRegion = None, seg = Some AMERICAS\<rparr>,
           \<lparr>iso3 = ''CAN'', alpha2 = None, name = ''C'', region = Some ''Americas'', subRegion = None, seg = Some AMERICAS\<rparr>,
           \<lparr>iso3 = ''FRA'', alpha2 = None, name = ''F'', region = Some ''Europe'', subRegion = None, seg = Some EMEA\<rparr>,
           \<lparr>iso3 = ''JPN'', alpha2 = None, name = ''J'', region = Some ''Asia'', subRegion = None, seg = Some APAC\<rparr>])))
      (Fin 0) = Fin (1506108 / 1000)
   \<and> totalRevenueMillions (exposure
        (reduce_feeds (\<lambda>s. NaN)
          (Some [\<lparr>countryiso3code = Some ''USA'', wb_value = Some (Fin 1000), wb_date = DateNum (Fin 2023)\<rparr>,
                 \<lparr>countryiso3code = Some ''FRA'', wb_value = Some (Fin 500), wb_date = DateNum (Fin 2023)\<rparr>])
          (Some [\<lparr>countryiso3code = Some ''USA'', wb_value = Some (Fin 150), wb_date = DateNum (Fin 2022)\<rparr>])
          None None None None)
        [\<lparr>iso3 = ''USA'', alpha2 = None, name = ''U'', region = Some ''Americas'', subRegion = None, seg = Some AMERICAS\<rparr>,
         \<lparr>iso3 = ''CAN'', alpha2 = None, name = ''C'', region = Some ''Americas'', subRegion = None, seg = Some AMERICAS\<rparr>,
         \<lparr>iso3 = ''FRA'', alpha2 = None, name = ''F'', region = Some ''Europe'', subRegion = None, seg = Some EMEA\<rparr>,
         \<lparr>iso3 = ''JPN'', alpha2 = None, name = ''J'', region = Some ''Asia'', subRegion = None, seg = Some APAC\<rparr>])
      = Fin (1506108 / 1000 + 580284 / 1000 + 235356 / 1000)"
  using segment_revenue_sums_to_anchor
    [of "[\<lparr>iso3 = ''USA'', alpha2 = None, name = ''U'', region = Some ''Americas'', subRegion = None, seg = Some AMERICAS\<rparr>,
         \<lparr>iso3 = ''CAN'', alpha2 = None, name = ''C'', region = Some ''Americas'', subRegion = None, seg = Some AMERICAS\<rparr>,
         \<lparr>iso3 = ''FRA'', alpha2 = None, name = ''F'', region = Some ''Europe'', subRegion = None, seg = Some EMEA\<rparr>,
         \<lparr>iso3 = ''JPN'', alpha2 = None, name = ''J'', region = Some ''Asia'', subRegion = None, seg = Some APAC\<rparr>]"
        AMERICAS
        "reduce_feeds (\<lambda>s. NaN)
          (Some [\<lparr>countryiso3code = Some ''USA'', wb_value = Some (Fin 1000), wb_date = DateNum (Fin 2023)\<rparr>,
                 \<lparr>countryiso3code = Some ''FRA'', wb_value = Some (Fin 500), wb_date = DateNum (Fin 2023)\<rparr>])
          (Some [\<lparr>countryiso3code = Some ''USA'', wb_value = Some (Fin 150), wb_date = DateNum (Fin 2022)\<rparr>])
          None None None None"]
  by (simp add: all_segments no_NaN_indicator_def get_value_def reduce_feeds_def latestByIso3_def
      latest_step_def SEGMENT_REVENUE_USD_M_def segment_name_def)

text \<open>
  A code that occurs in two country records has one score and two allocation rows: with
  two records \<^verbatim>\<open>USA\<close> in the Americas, one country in EMEA and one in APAC, and no
  indicator at all, the revenues of the Americas sum to twice the anchor 1506.108, and
  the total is 3827.856, not 2321.748.
\<close>

theorem duplicate_code_doubles_segment_revenue:
  "sum_values (map row_revenueMillions
      (filter (\<lambda>r. row_segment r = ''AMERICAS'')
        (allocations_of
          (scores_of (reduce_feeds (\<lambda>s. NaN) None None None None None None)
            [\<lparr>iso3 = ''USA'', alpha2 = None, name = ''U'', region = Some ''Americas'', subRegion = None, seg = Some AMERICAS\<rparr>,
             \<lparr>iso3 = ''USA'', alpha2 = None, name = ''U'', region = Some ''Americas'', subRegion = None, seg = Some AMERICAS\<rparr>,
             \<lparr>iso3 = ''FRA'', alpha2 = None, name = ''F'', region = Some ''Europe'', subRegion = None, seg = Some EMEA\<rparr>,
             \<lparr>iso3 = ''JPN'', alpha2 = None, name = ''J'', region = Some ''Asia'', subRegion = None, seg = Some APAC\<rparr>])
          [\<lparr>iso3 = ''USA'', alpha2 = None, name = ''U'', region = Some ''Americas'', subRegion = None, seg = Some AMERICAS\<rparr>,
           \<lparr>iso3 = ''USA'', alpha2 = None, name = ''U'', region = Some ''Americas'', subRegion = None, seg = Some AMERICAS\<rparr>,
           \<lparr>iso3 = ''FRA'', alpha2 = None, name = ''F'', region = Some ''Europe'', subRegion = None, seg = Some EMEA\<rparr>,
           \<lparr>iso3 = ''JPN'', alpha2 = None, name = ''J'', region = Some ''Asia'', subRegion = None, seg = Some APAC\<rparr>])))
      (Fin 0) = Fin (3012216 / 1000)
   \<and> SEGMENT_REVENUE_USD_M AMERICAS = 1506108 / 1000
   \<and> totalRevenueMillions (exposure (reduce_feeds (\<lambda>s. NaN) None None None None None None)
        [\<lparr>iso3 = ''USA'', alpha2 = None, name = ''U'', region = Some ''Americas'', subRegion = None, seg = Some AMERICAS\<rparr>,
         \<lparr>iso3 = ''USA'', alpha2 = None, name = ''U'', region = Some ''Americas'', subRegion = None, seg = Some AMERICAS\<rparr>,
         \<lparr>iso3 = ''FRA'', alpha2 = None, name = ''F'', region = Some ''Europe'', subRegion = None, seg = Some EMEA\<rparr>,
         \<lparr>iso3 = ''JPN'', alpha2 = None, name = ''J'', region = Some ''Asia'', subRegion = None, seg = Some APAC\<rparr>])
      = Fin (3827856 / 1000)"
  by (simp add: eval_defs)

section \<open>The allocation when no stored indicator is NaN\<close>

lemma segment_rows_revenue:
  "map row_revenueMillions (segment_rows (scores_of f cs) cs s)
     = map (revenue_of f cs s) (filter (\<lambda>c. seg c = Some s) cs)"
  by (simp add: segment_rows_def revenue_of_def comp_def)

text \<open>
  A country with a segment and no usable GDP (missing, not finite, or not positive) has
  the score \<^verbatim>\<open>1e-9\<close> in the map of its segment, whatever the other feeds hold.
\<close>

lemma score_without_gdp:
  assumes "c \<in> set cs" and "seg c = Some s"
    and "\<not> Number_isFinite (get_value (gdp f) (iso3 c)) \<or> js_le (the (get_value (gdp f) (iso3 c))) (Fin 0)"
  shows "map_of (scores_of f cs s) (iso3 c) = Some (Fin (1 / 10 ^ 9))"
proof -
  have "score_of f (segMedian_of f cs) s c = Fin (1 / 10 ^ 9)"
    using assms(3) by (simp add: score_of_def Let_def)
  then show ?thesis using scores_of_lookup[OF assms(1,2), of f] by simp
qed

text \<open>
  With distinct codes and no stored \<^verbatim>\<open>NaN\<close> indicator in the segment, every score of the
  segment is a positive real, so is their sum, and the revenue of a country is the anchor
  times its score over the sum.
\<close>

lemma segment_weights:
  assumes d: "distinct (map iso3 cs)"
    and nn: "\<forall>c \<in> set cs. seg c = Some s \<longrightarrow> no_NaN_indicator f c"
    and c: "c \<in> set cs" "seg c = Some s"
  shows "\<exists>w W. score_of f (segMedian_of f cs) s c = Fin w \<and> 0 < w \<and> 0 < W \<and>
           revenue_of f cs s c = Fin (SEGMENT_REVENUE_USD_M s * (w / W))"
proof -
  let ?M = "segMedian_of f cs"
  let ?Cs = "filter (\<lambda>c. seg c = Some s) cs"
  let ?w = "\<lambda>c. fin_val (score_of f ?M s c)"
  have sc: "score_of f ?M s x = Fin (?w x) \<and> 0 < ?w x" if "x \<in> set ?Cs" for x
  proof -
    have "no_NaN_indicator f x" using that nn by simp
    from score_of_pos[OF this, of cs s] obtain v
      where "score_of f ?M s x = Fin v" "0 < v" by blast
    then show ?thesis by (simp add: fin_val_def)
  qed
  have vals: "map snd (scores_of f cs s) = map Fin (map ?w ?Cs)"
    unfolding scores_of_list[OF d] using sc by (simp add: comp_def)
  let ?W = "sum_list (map ?w ?Cs)"
  have sum: "sum_values (map snd (scores_of f cs s)) (Fin 0) = Fin ?W"
    unfolding vals sum_values_Fin by simp
  have cin: "c \<in> set ?Cs" using c by simp
  then have "?Cs \<noteq> []" by (metis empty_iff empty_set)
  then have "map ?w ?Cs \<noteq> []" by simp
  moreover have "\<forall>x \<in> set (map ?w ?Cs). 0 < x" using sc by auto
  ultimately have W: "0 < ?W" by (rule sum_list_pos_real)
  have "map_of (scores_of f cs s) (iso3 c) = Some (score_of f ?M s c)"
    using c by (rule scores_of_lookup)
  then have "map_of (scores_of f cs s) (iso3 c) = Some (Fin (?w c))"
    using sc[OF cin] by simp
  then have "revenue_of f cs s c = Fin (SEGMENT_REVENUE_USD_M s * (?w c / ?W))"
    using W by (simp add: revenue_of_def sum allocation_row_def Let_def)
  then show ?thesis using sc[OF cin] W by blast
qed

lemma anchor_pos: "0 < SEGMENT_REVENUE_USD_M s"
  by (cases s) (simp_all add: SEGMENT_REVENUE_USD_M_def)

text \<open>Under the same conditions every country of the segment has a positive revenue.\<close>

lemma revenue_positive:
  assumes "distinct (map iso3 cs)"
    and "\<forall>c \<in> set cs. seg c = Some s \<longrightarrow> no_NaN_indicator f c"
    and "c \<in> set cs" "seg c = Some s"
  shows "\<exists>x. revenue_of f cs s c = Fin x \<and> 0 < x"
proof -
  from segment_weights[OF assms] obtain w W where
    "0 < w" "0 < W" "revenue_of f cs s c = Fin (SEGMENT_REVENUE_USD_M s * (w / W))" by blast
  moreover have "0 < SEGMENT_REVENUE_USD_M s * (w / W)"
    using anchor_pos[of s] \<open>0 < w\<close> \<open>0 < W\<close> by simp
  ultimately show ?thesis by blast
qed


text \<open>
  Under the same conditions, of two countries of the segment with the same positive GDP,
  the same stored indicators and the same hub and office status, one in the near-zero
  set and one not, the first has 0.01 times the score of the second and a strictly
  smaller revenue.
\<close>

lemma near_zero_country_scales:
  assumes d: "distinct (map iso3 cs)"
    and nn: "\<forall>c \<in> set cs. seg c = Some s \<longrightarrow> no_NaN_indicator f c"
    and z: "z \<in> set cs" "seg z = Some s" "iso3 z \<in> set NEAR_ZERO"
    and c: "c \<in> set cs" "seg c = Some s" "iso3 c \<notin> set NEAR_ZERO"
    and g: "get_value (gdp f) (iso3 z) = Some (Fin g)" "get_value (gdp f) (iso3 c) = Some (Fin g)" "0 < g"
    and same: "get_value (mcapPct f) (iso3 z) = get_value (mcapPct f) (iso3 c)"
      "get_value (creditPct f) (iso3 z) = get_value (creditPct f) (iso3 c)"
      "get_value (gdpPc f) (iso3 z) = get_value (gdpPc f) (iso3 c)"
      "get_value (netPct f) (iso3 z) = get_value (netPct f) (iso3 c)"
    and hub: "map_of HUB_MULT (iso3 z) = map_of HUB_MULT (iso3 c)"
    and office: "iso3 z \<in> set OFFICE_COUNTRIES \<longleftrightarrow> iso3 c \<in> set OFFICE_COUNTRIES"
  shows "\<exists>w x y. map_of (scores_of f cs s) (iso3 c) = Some (Fin w) \<and>
           map_of (scores_of f cs s) (iso3 z) = Some (Fin (w * 0.01)) \<and>
           revenue_of f cs s z = Fin x \<and> revenue_of f cs s c = Fin y \<and> x < y"
proof -
  let ?M = "segMedian_of f cs"
  have r: "score_of f ?M s z = js_mul (score_of f ?M s c) (Fin 0.01)"
    using g z(3) c(3) same hub office
    by (simp add: score_of_def Let_def value_or_def NEAR_ZERO_MULT_def)
  from segment_weights[OF d nn c(1,2)] obtain w W where
    w: "score_of f ?M s c = Fin w" "0 < w" "0 < W"
      "revenue_of f cs s c = Fin (SEGMENT_REVENUE_USD_M s * (w / W))" by blast
  have sz: "score_of f ?M s z = Fin (w * 0.01)" using r w(1) by simp
  have lc: "map_of (scores_of f cs s) (iso3 c) = Some (Fin w)"
    using scores_of_lookup[OF c(1,2), of f] w(1) by simp
  have lz: "map_of (scores_of f cs s) (iso3 z) = Some (Fin (w * 0.01))"
    using scores_of_lookup[OF z(1,2), of f] sz by simp
  from segment_weights[OF d nn z(1,2)] obtain w' W' where
    w': "score_of f ?M s z = Fin w'" "0 < W'"
      "revenue_of f cs s z = Fin (SEGMENT_REVENUE_USD_M s * (w' / W'))" by blast
  have sumW: "sum_values (map snd (scores_of f cs s)) (Fin 0) = Fin W"
    using w(3,4) lc anchor_pos[of s] w(2)
    by (cases "sum_values (map snd (scores_of f cs s)) (Fin 0)")
       (auto simp: revenue_of_def allocation_row_def Let_def split: if_splits)
  have rz: "revenue_of f cs s z = Fin (SEGMENT_REVENUE_USD_M s * (w * 0.01 / W))"
    using sumW lz w(3) by (simp add: revenue_of_def allocation_row_def Let_def)
  have "w * 0.01 < w" using w(2) by simp
  then have "w * 0.01 / W < w / W" using w(3) by (rule divide_strict_right_mono)
  then have "SEGMENT_REVENUE_USD_M s * (w * 0.01 / W) < SEGMENT_REVENUE_USD_M s * (w / W)"
    using anchor_pos[of s] by (rule mult_strict_left_mono)
  then show ?thesis using lc lz rz w(4) by blast
qed

end
